theory Spec2Isabelle
  imports Main
begin

section \<open>Python values used by the module\<close>

text \<open>
  The exceptions the module can raise: \<open>IndexError\<close> (list index out of range),
  \<open>ValueError\<close> (\<open>str.rindex\<close> finds nothing), \<open>AssertionError\<close> (a failed
  \<open>assert\<close>), \<open>AttributeError\<close> (attribute of a value that does not have it),
  \<open>SyntaxError\<close> (raised by \<open>ast.parse\<close>) and the failure of the header locator.
\<close>

datatype py_error =
  IndexError | ValueError | AssertionError | AttributeError | SyntaxError | UnmatchedDelimiter

subsection \<open>Strings\<close>

text \<open>\<open>s.rindex(c)\<close>: the highest index of the character, \<open>None\<close> where Python raises.\<close>

fun rindex :: "string \<Rightarrow> char \<Rightarrow> nat option" where
  "rindex [] c = None"
| "rindex (x # xs) c =
     (case rindex xs c of
        Some i \<Rightarrow> Some (Suc i)
      | None \<Rightarrow> if x = c then Some 0 else None)"

text \<open>\<open>s.startswith(p)\<close>.\<close>

definition startswith :: "string \<Rightarrow> string \<Rightarrow> bool" where
  "startswith s p \<longleftrightarrow> take (length p) s = p"

text \<open>
  \<open>s.strip()\<close> removes the white space at both ends; among the first 256 code points
  \<open>str.isspace\<close> holds for 9 to 13, 28 to 32, 133 and 160.
\<close>

definition is_space :: "char \<Rightarrow> bool" where
  "is_space c \<longleftrightarrow>
     (let n = (of_char c :: nat)
      in (9 \<le> n \<and> n \<le> 13) \<or> (28 \<le> n \<and> n \<le> 32) \<or> n = 133 \<or> n = 160)"

definition strip :: "string \<Rightarrow> string" where
  "strip s = rev (dropWhile is_space (rev (dropWhile is_space s)))"

text \<open>\<open>s.rstrip(":")\<close>.\<close>

definition rstrip_colon :: "string \<Rightarrow> string" where
  "rstrip_colon s = rev (dropWhile (\<lambda>c. c = CHR '':'') (rev s))"

text \<open>\<open>s[start:end]\<close> for offsets that are not negative.\<close>

definition slice :: "'a list \<Rightarrow> nat \<Rightarrow> nat \<Rightarrow> 'a list" where
  "slice s start end = drop start (take end s)"

text \<open>\<open>xs[-n:]\<close> and the list left by \<open>del xs[-n:]\<close>, for \<open>n > 0\<close>.\<close>

definition last_n :: "nat \<Rightarrow> 'a list \<Rightarrow> 'a list" where
  "last_n n xs = drop (length xs - n) xs"

definition del_last_n :: "nat \<Rightarrow> 'a list \<Rightarrow> 'a list" where
  "del_last_n n xs = take (length xs - n) xs"

subsection \<open>Syntax trees\<close>

text \<open>
  The module reads the trees of Python's \<open>ast\<close> module, which is not part of the
  repository: \<open>ast.parse\<close> is a parameter of every function below that calls it, of type
  \<open>string \<Rightarrow> py_error + stmt list\<close> (the body of the module parsed, or the error
  raised). Of an expression node only its position is read (\<open>lineno\<close>, \<open>col_offset\<close>,
  \<open>end_lineno\<close>, \<open>end_col_offset\<close>); of an \<open>ast.keyword\<close> its \<open>arg\<close> (\<open>None\<close> for
  a \<open>**\<close> spread) and the position of its \<open>value\<close>; of an \<open>ast.Call\<close> its \<open>args\<close>
  and its \<open>keywords\<close>; of an \<open>ast.arguments\<close> the names of the parameters and the
  positions of the defaults (\<open>kw_defaults\<close> holds \<open>None\<close> for a keyword-only parameter
  without default).
\<close>

record node =
  lineno :: nat
  col_offset :: nat
  end_lineno :: nat
  end_col_offset :: nat

record keyword =
  kw_arg :: "string option"
  kw_value :: node

record arguments =
  posonlyargs :: "string list"
  args :: "string list"
  vararg :: "string option"
  kwonlyargs :: "string list"
  kw_defaults :: "node option list"
  kwarg :: "string option"
  defaults :: "node list"

datatype expr = Call "node list" "keyword list" | OtherExpr

text \<open>
  A statement is an expression statement, a function definition, or another statement,
  given with its \<open>value\<close> attribute when it has one.
\<close>

datatype stmt = Expr expr | FunctionDef arguments | OtherStmt "expr option"

text \<open>
  A parameter name as \<open>_FunctionDefParser.get_parameters\<close> can return it: a string, or
  a tuple of an earlier entry of \<open>kwargs\<close>.
\<close>

datatype py_name = Str string | Tup py_name string

subsection \<open>The collaborators in \<open>rope.base\<close>\<close>

text \<open>
  \<open>rope.base.codeanalyze.SourceLinesAdapter\<close> and \<open>rope.base.worder.Worder\<close> are
  not among the sources. What the module uses of them is modelled from the spec, one
  definition at a time.
\<close>

text \<open>
  Modelled from the spec: \<open>SourceLinesAdapter\<close> is missing. The spec asks for "an
  index/offset model over immutable source text": the adapter keeps the text and the
  offsets at which its lines start.
\<close>

record lines_adapter =
  code :: string
  starts :: "nat list"

text \<open>
  Modelled from the spec: the line table of the missing \<open>SourceLinesAdapter\<close>. A line
  starts right behind each newline character; \<open>i\<close> is the offset of the first
  character of the text still to read.
\<close>

fun line_starts :: "string \<Rightarrow> nat \<Rightarrow> nat list" where
  "line_starts [] i = []"
| "line_starts (c # cs) i =
     (if c = CHR 0x0A then Suc i # line_starts cs (Suc i) else line_starts cs (Suc i))"

text \<open>
  Modelled from the spec: the constructor of the missing \<open>SourceLinesAdapter\<close>; the
  first line starts at offset 0.
\<close>

definition SourceLinesAdapter :: "string \<Rightarrow> lines_adapter" where
  "SourceLinesAdapter source = \<lparr>code = source, starts = 0 # line_starts source 0\<rparr>"

text \<open>
  Modelled from the spec: \<open>SourceLinesAdapter.get_line_start\<close> is missing. It is the
  service that gives "the line/offset at which" a line begins; line numbers start at 1,
  and a line number without a line raises \<open>IndexError\<close>.
\<close>

definition get_line_start :: "lines_adapter \<Rightarrow> nat \<Rightarrow> py_error + nat" where
  "get_line_start ls n =
     (if 1 \<le> n \<and> n \<le> length (starts ls) then Inr (starts ls ! (n - 1)) else Inl IndexError)"

text \<open>
  Modelled from the spec: the characters that open and close "string-literal content"
  for the missing header locator, the two quotes.
\<close>

definition is_quote :: "char \<Rightarrow> bool" where
  "is_quote c \<longleftrightarrow> c = CHR 0x22 \<or> c = CHR 0x27"

text \<open>
  Modelled from the spec: the opening delimiters of the "nested
  parentheses/brackets/braces" of the missing header locator.
\<close>

definition is_opener :: "char \<Rightarrow> bool" where
  "is_opener c \<longleftrightarrow> c \<in> set ''([{''"

text \<open>Modelled from the spec: the closing delimiters, for the same locator.\<close>

definition is_closer :: "char \<Rightarrow> bool" where
  "is_closer c \<longleftrightarrow> c \<in> set '')]}''"

text \<open>
  Modelled from the spec: inside "string-literal content" a quote that follows an odd
  number of backslashes is escaped and belongs to the literal. The text is read from
  right to left, so the backslashes are the next characters of the reversed text.
\<close>

definition escaped :: "string \<Rightarrow> bool" where
  "escaped cs \<longleftrightarrow> odd (length (takeWhile (\<lambda>x. x = CHR 0x5C) cs))"

text \<open>
  Modelled from the spec: the search of the missing \<open>Worder._find_parens_start\<close>. It
  reads the text before the closing delimiter from right to left, with the nesting depth
  and the quote of the string literal it is in, and counts the characters it passes
  before "the matching opening delimiter"; \<open>None\<close> when "no matching opening delimiter
  is found before the start of the text".
\<close>

fun match_open :: "string \<Rightarrow> nat \<Rightarrow> char option \<Rightarrow> nat option" where
  "match_open [] d q = None"
| "match_open (c # cs) d (Some q) =
     map_option Suc (match_open cs d (if c = q \<and> \<not> escaped cs then None else Some q))"
| "match_open (c # cs) d None =
     (if is_quote c then map_option Suc (match_open cs d (Some c))
      else if is_closer c then map_option Suc (match_open cs (Suc d) None)
      else if is_opener c then
        (case d of 0 \<Rightarrow> Some 0 | Suc d' \<Rightarrow> map_option Suc (match_open cs d' None))
      else map_option Suc (match_open cs d None))"

text \<open>
  Modelled from the spec: \<open>Worder._find_parens_start\<close> is missing. The header locator,
  "given source text and the offset of the header's last significant delimiter",
  "returns the offset of the matching opening delimiter, accounting for nested
  parentheses/brackets/braces and string-literal content", and "fails (reports
  malformed input) if no matching opening delimiter is found before the start of the
  text".
\<close>

definition find_parens_start :: "string \<Rightarrow> nat \<Rightarrow> py_error + nat" where
  "find_parens_start source offset =
     (case match_open (rev (take offset source)) 0 None of
        None \<Rightarrow> Inl UnmatchedDelimiter
      | Some k \<Rightarrow> Inr (offset - 1 - k))"

text \<open>
  Modelled from the spec: the characters of a "word" for the missing word finder, those
  of an identifier.
\<close>

definition is_ident :: "char \<Rightarrow> bool" where
  "is_ident c \<longleftrightarrow>
     c \<in> set ''abcdefghijklmnopqrstuvwxyzABCDEFGHIJKLMNOPQRSTUVWXYZ0123456789_''"

text \<open>
  Modelled from the spec: \<open>Worder.get_word_at\<close> is missing. The locator exposes the
  "word immediately before offset X"; the module asks for it at \<open>first_parens - 1\<close>, the
  offset of the last character of the word.
\<close>

definition get_word_at :: "string \<Rightarrow> int \<Rightarrow> string" where
  "get_word_at source offset = rev (takeWhile is_ident (rev (take (nat (offset + 1)) source)))"

text \<open>
  Modelled from the spec: the length of a string literal for the missing word finder,
  read from right to left behind its closing quote \<open>q\<close>: the number of characters
  before the opening quote, the first quote \<open>q\<close> that is not escaped.
\<close>

fun string_open :: "char \<Rightarrow> string \<Rightarrow> nat option" where
  "string_open q [] = None"
| "string_open q (c # cs) =
     (if c = q \<and> \<not> escaped cs then Some 0 else map_option Suc (string_open q cs))"

text \<open>
  Modelled from the spec: the states of the scan of the missing \<open>Worder.get_primary_at\<close>,
  which reads a primary from right to left: \<open>Seg\<close> at the right end of a part of the
  primary (an atom with the bracketed groups behind it), \<open>Word\<close> inside an identifier,
  \<open>Skip n\<close> with \<open>n\<close> characters of a bracketed group or of a string literal left.
\<close>

datatype scan_mode = Seg | Word | Skip nat

text \<open>
  Modelled from the spec: whether a part of a primary ends with the first character of
  the reversed text, so that a dot behind it joins two parts.
\<close>

definition starts_segment :: "string \<Rightarrow> bool" where
  "starts_segment cs \<longleftrightarrow>
     (case cs of [] \<Rightarrow> False | x # _ \<Rightarrow> is_ident x \<or> is_closer x \<or> is_quote x)"

text \<open>
  Modelled from the spec: the number of characters of "the full primary expression
  text" at the head of the reversed text. A primary is made of parts joined by dots
  ("a receiver expression such as \<open>a.b.c\<close>"); a part is an identifier, a string literal
  or a bracketed group, followed by any number of bracketed groups (subscripts and
  argument lists, matched as the header locator matches them).
\<close>

fun primary_scan :: "scan_mode \<Rightarrow> string \<Rightarrow> nat" where
  "primary_scan mode [] = 0"
| "primary_scan (Skip n) (c # cs) = Suc (primary_scan (if n \<le> 1 then Seg else Skip (n - 1)) cs)"
| "primary_scan Word (c # cs) =
     (if is_ident c then Suc (primary_scan Word cs)
      else if c = CHR ''.'' \<and> starts_segment cs then Suc (primary_scan Seg cs)
      else 0)"
| "primary_scan Seg (c # cs) =
     (if is_closer c then
        (case match_open cs 0 None of
           None \<Rightarrow> 0
         | Some k \<Rightarrow> Suc (primary_scan (Skip (Suc k)) cs))
      else if is_quote c then
        (case string_open c cs of
           None \<Rightarrow> 0
         | Some k \<Rightarrow> Suc (primary_scan (Skip (Suc k)) cs))
      else if is_ident c then Suc (primary_scan Word cs)
      else 0)"

text \<open>
  Modelled from the spec: \<open>Worder.get_primary_at\<close> is missing. The locator exposes the
  "dotted-primary expression immediately before offset X"; the module asks for it at
  \<open>first_parens - 1\<close>, the offset of its last character, and uses it as "the full
  primary expression text before the opening delimiter".
\<close>

definition get_primary_at :: "string \<Rightarrow> int \<Rightarrow> string" where
  "get_primary_at source offset =
     (let reversed = rev (take (nat (offset + 1)) source)
      in rev (take (primary_scan Seg reversed) reversed))"

section \<open>Data model of rope/refactor/functionutils.py\<close>

text \<open>
  \<open>class _BaseFunctionParser\<close> with the fields its two subclasses add: \<open>_lines\<close> and
  \<open>ast\<close>, the latter an \<open>ast.arguments\<close> for a definition and the arguments and
  keywords of an \<open>ast.Call\<close> for a call. The \<open>word_finder\<close> is a \<open>Worder\<close> of \<open>call\<close>.
\<close>

record 't function_parser =
  call :: string
  implicit_arg :: bool
  last_parens :: nat
  first_parens :: nat
  lines :: lines_adapter
  ast :: 't

text \<open>
  \<open>class DefinitionInfo\<close>. The parameter names are of a type \<open>'n\<close>: the argument
  mapper only compares them and uses them as dictionary keys.
\<close>

record 'n DefinitionInfo =
  function_name :: string
  is_method :: bool
  args_with_defaults :: "('n \<times> string option) list"
  args_arg :: "string option"
  keywords_arg :: "string option"

text \<open>\<open>class CallInfo\<close>; the field \<open>keywords\<close> is \<open>keywords_list\<close> here.\<close>

record 'n CallInfo =
  function_name :: string
  args :: "string list"
  keywords_list :: "('n \<times> string) list"
  args_arg :: "string option"
  keywords_arg :: "string option"
  implicit_arg :: bool
  constructor :: bool

text \<open>
  \<open>class ArgumentMapping\<close>: \<open>param_dict\<close> is a Python dict, \<open>keyword_args\<close> and
  \<open>args_arg\<close> are the lists of leftovers.
\<close>

record 'n ArgumentMapping =
  call_info :: "'n CallInfo"
  param_dict :: "'n \<rightharpoonup> string"
  keyword_args :: "('n \<times> string) list"
  args_arg :: "string list"

section \<open>The argument mapper\<close>

subsection \<open>\<open>ArgumentMapping.__init__\<close>\<close>

text \<open>
  The first loop, over \<open>enumerate(call_info.args)\<close>: an argument whose index is within
  the parameter list is stored under that parameter's name, any other is appended to
  \<open>args_arg\<close>.
\<close>

fun bind_positional ::
  "('n \<times> 'd) list \<Rightarrow> (nat \<times> string) list \<Rightarrow> ('n \<rightharpoonup> string) \<times> string list
     \<Rightarrow> ('n \<rightharpoonup> string) \<times> string list" where
  "bind_positional params [] (pd, ovf) = (pd, ovf)"
| "bind_positional params ((index, v) # rest) (pd, ovf) =
     (if index < length params
      then bind_positional params rest (pd(fst (params ! index) \<mapsto> v), ovf)
      else bind_positional params rest (pd, ovf @ [v]))"

text \<open>
  The inner \<open>for pair in ...: if pair[0] == name: ...; break\<close>: \<open>True\<close> when the loop
  leaves through \<open>break\<close>, \<open>False\<close> when it reaches its \<open>else\<close>.
\<close>

fun has_parameter :: "('n \<times> 'd) list \<Rightarrow> 'n \<Rightarrow> bool" where
  "has_parameter [] name = False"
| "has_parameter (pair # rest) name =
     (if fst pair = name then True else has_parameter rest name)"

text \<open>The second loop, over \<open>call_info.keywords\<close>.\<close>

fun bind_keywords ::
  "('n \<times> 'd) list \<Rightarrow> ('n \<times> string) list \<Rightarrow> ('n \<rightharpoonup> string) \<times> ('n \<times> string) list
     \<Rightarrow> ('n \<rightharpoonup> string) \<times> ('n \<times> string) list" where
  "bind_keywords params [] (pd, kws) = (pd, kws)"
| "bind_keywords params ((name, v) # rest) (pd, kws) =
     (if has_parameter params name
      then bind_keywords params rest (pd(name \<mapsto> v), kws)
      else bind_keywords params rest (pd, kws @ [(name, v)]))"

definition ArgumentMapping_init :: "'n DefinitionInfo \<Rightarrow> 'n CallInfo \<Rightarrow> 'n ArgumentMapping" where
  "ArgumentMapping_init definition_info ci =
     (let params = args_with_defaults definition_info;
          (pd, ovf) = bind_positional params (enumerate 0 (args ci)) (Map.empty, []);
          (pd', kws) = bind_keywords params (keywords_list ci) (pd, [])
      in \<lparr>call_info = ci, param_dict = pd', keyword_args = kws,
          ArgumentMapping.args_arg = ovf\<rparr>)"

subsection \<open>\<open>ArgumentMapping.to_call_info\<close>\<close>

text \<open>
  The inner loop \<open>for i in range(index, len(...))\<close>, run on the parameters from the
  first unbound one on: every bound parameter becomes a keyword argument.
\<close>

fun emit_keywords :: "('n \<rightharpoonup> string) \<Rightarrow> ('n \<times> 'd) list \<Rightarrow> ('n \<times> string) list" where
  "emit_keywords pd [] = []"
| "emit_keywords pd (p # ps) =
     (case pd (fst p) of
        Some v \<Rightarrow> (fst p, v) # emit_keywords pd ps
      | None \<Rightarrow> emit_keywords pd ps)"

text \<open>
  The outer loop over the parameters of the target definition: a bound parameter is
  appended to \<open>args\<close>; the first unbound one runs the inner loop and then \<open>break\<close>s.
\<close>

fun walk_parameters ::
  "('n \<rightharpoonup> string) \<Rightarrow> ('n \<times> 'd) list \<Rightarrow> string list \<Rightarrow> string list \<times> ('n \<times> string) list" where
  "walk_parameters pd [] acc = (acc, [])"
| "walk_parameters pd (p # ps) acc =
     (case pd (fst p) of
        Some v \<Rightarrow> walk_parameters pd ps (acc @ [v])
      | None \<Rightarrow> (acc, emit_keywords pd (p # ps)))"

definition to_call_info :: "'n ArgumentMapping \<Rightarrow> 'n DefinitionInfo \<Rightarrow> 'n CallInfo" where
  "to_call_info self definition_info =
     (let (as, kws) = walk_parameters (param_dict self) (args_with_defaults definition_info) []
      in \<lparr>CallInfo.function_name = CallInfo.function_name (call_info self),
          args = as @ ArgumentMapping.args_arg self,
          keywords_list = kws @ keyword_args self,
          CallInfo.args_arg = CallInfo.args_arg (call_info self),
          CallInfo.keywords_arg = CallInfo.keywords_arg (call_info self),
          implicit_arg = implicit_arg (call_info self),
          constructor = constructor (call_info self)\<rparr>)"

subsection \<open>\<open>CallInfo.to_string\<close>\<close>

text \<open>\<open>sep.join(xs)\<close>.\<close>

fun join :: "string \<Rightarrow> string list \<Rightarrow> string" where
  "join sep [] = []"
| "join sep [x] = x"
| "join sep (x # y # ys) = x @ sep @ join sep (y # ys)"

text \<open>
  \<open>self.args[0]\<close> raises \<open>IndexError\<close> on an empty list; \<open>self.args[start:]\<close> is
  \<open>drop start\<close>; \<open>if self.keywords_arg\<close> is false for \<open>None\<close> and for the empty string.
\<close>

definition CallInfo_to_string :: "string CallInfo \<Rightarrow> py_error + string" where
  "CallInfo_to_string self =
     (if implicit_arg self \<and> args self = [] then Inl IndexError
      else
        let function = (if implicit_arg self
                        then hd (args self) @ ''.'' @ CallInfo.function_name self
                        else CallInfo.function_name self);
            start = (if implicit_arg self \<or> constructor self then 1 else 0 :: nat);
            params = drop start (args self)
                     @ map (\<lambda>(name, v). name @ ''='' @ v) (keywords_list self)
                     @ (case CallInfo.args_arg self of Some a \<Rightarrow> [''*'' @ a] | None \<Rightarrow> [])
                     @ (case CallInfo.keywords_arg self of
                          Some k \<Rightarrow> (if k \<noteq> [] then [''**'' @ k] else [])
                        | None \<Rightarrow> [])
        in Inr (function @ ''('' @ join '', '' params @ '')''))"

section \<open>The parsers\<close>

subsection \<open>\<open>_BaseFunctionParser\<close>\<close>

text \<open>
  \<open>__init__\<close>: \<open>last_parens\<close> is the last colon of a lambda header and the last closing
  parenthesis of any other header, \<open>first_parens\<close> is what the word finder returns for it.
\<close>

definition BaseFunctionParser_init :: "string \<Rightarrow> bool \<Rightarrow> py_error + nat \<times> nat" where
  "BaseFunctionParser_init c is_lambda =
     (case rindex c (if is_lambda then CHR '':'' else CHR '')'') of
        None \<Rightarrow> Inl ValueError
      | Some lp \<Rightarrow>
          (case find_parens_start c lp of
             Inl e \<Rightarrow> Inl e
           | Inr fp \<Rightarrow> Inr (lp, fp)))"

definition is_called_as_a_method :: "'t function_parser \<Rightarrow> bool" where
  "is_called_as_a_method self \<longleftrightarrow>
     function_parser.implicit_arg self \<and> CHR ''.'' \<in> set (take (first_parens self) (call self))"

definition get_function_name :: "'t function_parser \<Rightarrow> string" where
  "get_function_name self =
     (if is_called_as_a_method self
      then get_word_at (call self) (int (first_parens self) - 1)
      else get_primary_at (call self) (int (first_parens self) - 1))"

text \<open>\<open>_get_source_range\<close>: the characters of \<open>_lines.code\<close> that the node spans.\<close>

definition get_source_range :: "'t function_parser \<Rightarrow> node \<Rightarrow> py_error + string" where
  "get_source_range self tree =
     (case get_line_start (lines self) (lineno tree) of
        Inl e \<Rightarrow> Inl e
      | Inr s \<Rightarrow>
          (case get_line_start (lines self) (end_lineno tree) of
             Inl e \<Rightarrow> Inl e
           | Inr e \<Rightarrow>
               Inr (slice (code (lines self)) (s + col_offset tree) (e + end_col_offset tree))))"

subsection \<open>\<open>_FunctionDefParser\<close>\<close>

text \<open>
  \<open>__init__\<close> passes \<open>is_lambda=False\<close> to the base class whatever it is given, parses
  \<open>"def " + call.rstrip(":") + ": pass"\<close> and asserts that the first statement is a
  function definition.
\<close>

definition FunctionDefParser_init ::
  "(string \<Rightarrow> py_error + stmt list) \<Rightarrow> string \<Rightarrow> bool \<Rightarrow> bool
     \<Rightarrow> py_error + arguments function_parser" where
  "FunctionDefParser_init ast_parse c implicit is_lambda =
     (case BaseFunctionParser_init c False of
        Inl e \<Rightarrow> Inl e
      | Inr (lp, fp) \<Rightarrow>
          (let modified_call = ''def '' @ rstrip_colon c @ '': pass'' in
           case ast_parse modified_call of
             Inl e \<Rightarrow> Inl e
           | Inr [] \<Rightarrow> Inl IndexError
           | Inr (FunctionDef a # _) \<Rightarrow>
               Inr \<lparr>call = c, function_parser.implicit_arg = implicit, last_parens = lp,
                    first_parens = fp, lines = SourceLinesAdapter modified_call, ast = a\<rparr>
           | Inr (_ # _) \<Rightarrow> Inl AssertionError))"

text \<open>
  The comprehension \<open>[(name, self._get_source_range(value)) for name, value in zip(..)]\<close>
  over the defaults, and the one over the keyword-only defaults, where
  \<open>_get_source_range(None)\<close> raises \<open>AttributeError\<close>.
\<close>

fun default_ranges ::
  "'t function_parser \<Rightarrow> ('a \<times> node) list \<Rightarrow> py_error + ('a \<times> string) list" where
  "default_ranges self [] = Inr []"
| "default_ranges self ((name, v) # rest) =
     (case get_source_range self v of
        Inl e \<Rightarrow> Inl e
      | Inr text \<Rightarrow>
          (case default_ranges self rest of
             Inl e \<Rightarrow> Inl e
           | Inr others \<Rightarrow> Inr ((name, text) # others)))"

fun kw_default_ranges ::
  "'t function_parser \<Rightarrow> ('a \<times> node option) list \<Rightarrow> py_error + ('a \<times> string) list" where
  "kw_default_ranges self [] = Inr []"
| "kw_default_ranges self ((name, None) # rest) = Inl AttributeError"
| "kw_default_ranges self ((name, Some v) # rest) =
     (case get_source_range self v of
        Inl e \<Rightarrow> Inl e
      | Inr text \<Rightarrow>
          (case kw_default_ranges self rest of
             Inl e \<Rightarrow> Inl e
           | Inr others \<Rightarrow> Inr ((name, text) # others)))"

text \<open>
  \<open>get_parameters\<close>, statement by statement. The names that go with the defaults are
  the last ones of \<open>args\<close> after the \<open>*vararg\<close> entry has been appended; the names that
  go with the keyword-only defaults are taken from \<open>kwargs\<close>, so they are the earlier
  pairs of \<open>kwargs\<close>; \<open>del args[-len(kw_defaults):]\<close> removes as many entries as there are
  keyword-only parameters.
\<close>

definition FunctionDefParser_get_parameters ::
  "arguments function_parser \<Rightarrow> py_error + string list \<times> (py_name \<times> string) list" where
  "FunctionDefParser_get_parameters self =
     (let a = ast self;
          args0 = posonlyargs a @ arguments.args a;
          args1 = (case vararg a of Some v \<Rightarrow> args0 @ [''*'' @ v] | None \<Rightarrow> args0);
          n = length (defaults a)
      in case (if n > 0
               then (case default_ranges self (zip (last_n n args1) (defaults a)) of
                       Inl e \<Rightarrow> Inl e
                     | Inr new \<Rightarrow> Inr (map (\<lambda>(name, text). (Str name, text)) new,
                                       del_last_n n args1))
               else Inr ([], args1)) of
           Inl e \<Rightarrow> Inl e
         | Inr (kwargs1, args2) \<Rightarrow>
             (let args3 = (case kwarg a of Some k \<Rightarrow> args2 @ [''**'' @ k] | None \<Rightarrow> args2);
                  args4 = (if kwonlyargs a \<noteq> [] then args3 @ [''*''] @ kwonlyargs a
                           else args3);
                  m = length (kw_defaults a)
              in if m > 0
                 then (case kw_default_ranges self (zip (last_n m kwargs1) (kw_defaults a)) of
                         Inl e \<Rightarrow> Inl e
                       | Inr new \<Rightarrow>
                           Inr (del_last_n m args4,
                                kwargs1 @ map (\<lambda>((name, d), text). (Tup name d, text)) new))
                 else Inr (args4, kwargs1)))"

subsection \<open>\<open>_FunctionCallParser\<close>\<close>

text \<open>
  \<open>__init__\<close> parses the call itself: \<open>ast.parse(call).body[0].value\<close> must be an
  \<open>ast.Call\<close>.
\<close>

definition FunctionCallParser_init ::
  "(string \<Rightarrow> py_error + stmt list) \<Rightarrow> string \<Rightarrow> bool
     \<Rightarrow> py_error + (node list \<times> keyword list) function_parser" where
  "FunctionCallParser_init ast_parse c implicit =
     (case BaseFunctionParser_init c False of
        Inl e \<Rightarrow> Inl e
      | Inr (lp, fp) \<Rightarrow>
          (case ast_parse c of
             Inl e \<Rightarrow> Inl e
           | Inr [] \<Rightarrow> Inl IndexError
           | Inr (Expr (Call as ks) # _) \<Rightarrow>
               Inr \<lparr>call = c, function_parser.implicit_arg = implicit, last_parens = lp,
                    first_parens = fp, lines = SourceLinesAdapter c, ast = (as, ks)\<rparr>
           | Inr (Expr OtherExpr # _) \<Rightarrow> Inl AssertionError
           | Inr (OtherStmt (Some (Call as ks)) # _) \<Rightarrow>
               Inr \<lparr>call = c, function_parser.implicit_arg = implicit, last_parens = lp,
                    first_parens = fp, lines = SourceLinesAdapter c, ast = (as, ks)\<rparr>
           | Inr (OtherStmt (Some OtherExpr) # _) \<Rightarrow> Inl AssertionError
           | Inr (_ # _) \<Rightarrow> Inl AttributeError))"

text \<open>The loop over \<open>self.ast.args\<close>.\<close>

fun arg_ranges :: "'t function_parser \<Rightarrow> node list \<Rightarrow> py_error + string list" where
  "arg_ranges self [] = Inr []"
| "arg_ranges self (a # rest) =
     (case get_source_range self a of
        Inl e \<Rightarrow> Inl e
      | Inr arg_value \<Rightarrow>
          (case arg_ranges self rest of
             Inl e \<Rightarrow> Inl e
           | Inr others \<Rightarrow> Inr (arg_value # others)))"

text \<open>
  The loop over \<open>self.ast.keywords\<close>: \<open>assert kw.arg\<close> fails for \<open>None\<close> and for the
  empty string.
\<close>

fun keyword_ranges ::
  "'t function_parser \<Rightarrow> keyword list \<Rightarrow> py_error + (string \<times> string) list" where
  "keyword_ranges self [] = Inr []"
| "keyword_ranges self (kw # rest) =
     (case get_source_range self (kw_value kw) of
        Inl e \<Rightarrow> Inl e
      | Inr kw_value' \<Rightarrow>
          (case kw_arg kw of
             None \<Rightarrow> Inl AssertionError
           | Some name \<Rightarrow>
               if name = [] then Inl AssertionError
               else (case keyword_ranges self rest of
                       Inl e \<Rightarrow> Inl e
                     | Inr others \<Rightarrow> Inr ((name, kw_value') # others))))"

definition FunctionCallParser_get_parameters ::
  "(node list \<times> keyword list) function_parser
     \<Rightarrow> py_error + string list \<times> (string \<times> string) list" where
  "FunctionCallParser_get_parameters self =
     (case arg_ranges self (fst (ast self)) of
        Inl e \<Rightarrow> Inl e
      | Inr as \<Rightarrow>
          (case keyword_ranges self (snd (ast self)) of
             Inl e \<Rightarrow> Inl e
           | Inr kwargs \<Rightarrow>
               if is_called_as_a_method self
               then (case rindex (take (first_parens self) (call self)) (CHR ''.'') of
                       None \<Rightarrow> Inl ValueError
                     | Some i \<Rightarrow> Inr (strip (take i (call self)) # as, kwargs))
               else Inr (as, kwargs)))"

subsection \<open>\<open>DefinitionInfo._read\<close> and \<open>CallInfo.read\<close>\<close>

text \<open>
  The two \<open>if args and args[-1].startswith(..)\<close> statements that both readers run on
  the list the parser returns: the keyword spread first, then the positional one.
\<close>

definition strip_spreads :: "string list \<Rightarrow> string list \<times> string option \<times> string option" where
  "strip_spreads as =
     (let (keywords_arg, as1) =
            (if as \<noteq> [] \<and> startswith (last as) ''**''
             then (Some (drop 2 (last as)), butlast as) else (None, as));
          (args_arg, as2) =
            (if as1 \<noteq> [] \<and> startswith (last as1) ''*''
             then (Some (drop 1 (last as1)), butlast as1) else (None, as1))
      in (as2, args_arg, keywords_arg))"

text \<open>
  \<open>DefinitionInfo._read(pyfunction, code)\<close>; \<open>kind\<close> is \<open>pyfunction.get_kind()\<close>.
\<close>

definition DefinitionInfo_read ::
  "(string \<Rightarrow> py_error + stmt list) \<Rightarrow> string \<Rightarrow> string
     \<Rightarrow> py_error + py_name DefinitionInfo" where
  "DefinitionInfo_read ast_parse kind c =
     (let is_method = (kind = ''method''); is_lambda = (kind = ''lambda'') in
      case FunctionDefParser_init ast_parse c is_method is_lambda of
        Inl e \<Rightarrow> Inl e
      | Inr info \<Rightarrow>
          (case FunctionDefParser_get_parameters info of
             Inl e \<Rightarrow> Inl e
           | Inr (as, kws) \<Rightarrow>
               (let (as', args_arg, keywords_arg) = strip_spreads as
                in Inr \<lparr>DefinitionInfo.function_name = get_function_name info,
                        is_method = is_method,
                        args_with_defaults =
                          map (\<lambda>name. (Str name, None)) as'
                          @ map (\<lambda>(name, d). (name, Some d)) kws,
                        DefinitionInfo.args_arg = args_arg,
                        DefinitionInfo.keywords_arg = keywords_arg\<rparr>)))"

text \<open>
  \<open>CallInfo.read(primary, pyname, definition_info, code)\<close>; the three flags are what
  \<open>_is_method_call\<close>, \<open>_is_class\<close> and \<open>_is_classmethod\<close> find out about \<open>primary\<close> and
  \<open>pyname\<close>. \<open>definition_info.args_with_defaults[0]\<close> raises \<open>IndexError\<close> when the
  definition has no parameter.
\<close>

definition CallInfo_read ::
  "(string \<Rightarrow> py_error + stmt list) \<Rightarrow> bool \<Rightarrow> bool \<Rightarrow> bool \<Rightarrow> string DefinitionInfo
     \<Rightarrow> string \<Rightarrow> py_error + string CallInfo" where
  "CallInfo_read ast_parse is_method_call is_constructor is_classmethod definition_info c =
     (case FunctionCallParser_init ast_parse c (is_method_call \<or> is_classmethod) of
        Inl e \<Rightarrow> Inl e
      | Inr info \<Rightarrow>
          (case FunctionCallParser_get_parameters info of
             Inl e \<Rightarrow> Inl e
           | Inr (as, kws) \<Rightarrow>
               (let (as', args_arg, keywords_arg) = strip_spreads as in
                case (if is_constructor
                      then (case args_with_defaults definition_info of
                              [] \<Rightarrow> Inl IndexError
                            | p # _ \<Rightarrow> Inr (fst p # as'))
                      else Inr as') of
                  Inl e \<Rightarrow> Inl e
                | Inr as'' \<Rightarrow>
                    Inr \<lparr>CallInfo.function_name = get_function_name info,
                         args = as'', keywords_list = kws,
                         CallInfo.args_arg = args_arg, CallInfo.keywords_arg = keywords_arg,
                         implicit_arg = is_method_call \<or> is_classmethod,
                         constructor = is_constructor\<rparr>)))"

subsection \<open>Calls written in the order of the definition\<close>

text \<open>
  A call follows the parameter order of a definition when its positional arguments fill
  the first parameters and its keyword arguments name the parameters after them, one by
  one and in declaration order: with \<open>def f(a, b)\<close>, the calls \<open>f(1, 2)\<close>,
  \<open>f(1, b=2)\<close> and \<open>f(a=1, b=2)\<close> do, \<open>f(b=2, a=1)\<close> does not. This is the
  reading of "the call agrees with the order of the definition" in the round-trip
  property; it is not a function of the module.
\<close>

definition follows_definition_order :: "'n DefinitionInfo \<Rightarrow> 'n CallInfo \<Rightarrow> bool" where
  "follows_definition_order definition_info ci \<longleftrightarrow>
     length (args ci) + length (keywords_list ci) \<le> length (args_with_defaults definition_info)
     \<and> map fst (keywords_list ci) =
         take (length (keywords_list ci))
           (drop (length (args ci)) (map fst (args_with_defaults definition_info)))"

subsection \<open>Headers used as examples\<close>

text \<open>
  \<open>plain_definition f [a, b]\<close> is the model of \<open>def f(a, b)\<close>, with an optional
  \<open>*rest\<close> parameter; \<open>plain_call f [x, y] [(k, v)]\<close> is the model of the call
  \<open>f(x, y, k=v)\<close> of a plain function.
\<close>

definition plain_definition :: "string \<Rightarrow> 'n list \<Rightarrow> string option \<Rightarrow> 'n DefinitionInfo" where
  "plain_definition f names rest =
     \<lparr>DefinitionInfo.function_name = f, is_method = False,
      args_with_defaults = map (\<lambda>n. (n, None)) names,
      DefinitionInfo.args_arg = rest, DefinitionInfo.keywords_arg = None\<rparr>"

definition plain_call :: "string \<Rightarrow> string list \<Rightarrow> ('n \<times> string) list \<Rightarrow> 'n CallInfo" where
  "plain_call f as kws =
     \<lparr>CallInfo.function_name = f, args = as, keywords_list = kws,
      CallInfo.args_arg = None, CallInfo.keywords_arg = None,
      implicit_arg = False, constructor = False\<rparr>"

section \<open>Properties of the argument mapper\<close>

lemma emit_keywords_filter:
  "emit_keywords pd ps =
     map (\<lambda>p. (fst p, the (pd (fst p)))) (filter (\<lambda>p. pd (fst p) \<noteq> None) ps)"
  by (induction ps) (auto split: option.splits)

lemma walk_parameters_takeWhile:
  "walk_parameters pd ps acc =
     (acc @ map (\<lambda>p. the (pd (fst p))) (takeWhile (\<lambda>p. pd (fst p) \<noteq> None) ps),
      emit_keywords pd (dropWhile (\<lambda>p. pd (fst p) \<noteq> None) ps))"
proof (induction ps arbitrary: acc)
  case Nil
  show ?case by simp
next
  case (Cons p ps)
  show ?case
  proof (cases "pd (fst p)")
    case None
    then show ?thesis by simp
  next
    case (Some v)
    then show ?thesis by (simp add: Cons.IH)
  qed
qed

lemma to_call_info_args:
  "args (to_call_info self definition_info) =
     map (\<lambda>p. the (param_dict self (fst p)))
       (takeWhile (\<lambda>p. param_dict self (fst p) \<noteq> None) (args_with_defaults definition_info))
     @ ArgumentMapping.args_arg self"
  by (simp add: to_call_info_def walk_parameters_takeWhile)

lemma to_call_info_keywords:
  "keywords_list (to_call_info self definition_info) =
     map (\<lambda>p. (fst p, the (param_dict self (fst p))))
       (filter (\<lambda>p. param_dict self (fst p) \<noteq> None)
         (dropWhile (\<lambda>p. param_dict self (fst p) \<noteq> None) (args_with_defaults definition_info)))
     @ keyword_args self"
  by (simp add: to_call_info_def walk_parameters_takeWhile emit_keywords_filter)

lemma to_call_info_fields:
  "CallInfo.function_name (to_call_info self definition_info) = CallInfo.function_name (call_info self)"
  "CallInfo.args_arg (to_call_info self definition_info) = CallInfo.args_arg (call_info self)"
  "CallInfo.keywords_arg (to_call_info self definition_info) = CallInfo.keywords_arg (call_info self)"
  "implicit_arg (to_call_info self definition_info) = implicit_arg (call_info self)"
  "constructor (to_call_info self definition_info) = constructor (call_info self)"
  by (simp_all add: to_call_info_def split: prod.splits)

lemma has_parameter_iff: "has_parameter ps n \<longleftrightarrow> n \<in> fst ` set ps"
  by (induction ps) auto

lemma map_add_snoc: "pd ++ map_of (xs @ [(k, v)]) = pd(k \<mapsto> v) ++ map_of xs"
  by (rule ext) (simp add: map_add_def split: option.splits)

lemma map_add_snoc': "(\<lambda>a. if a = k then Some v else pd a) ++ map_of xs = pd ++ map_of (xs @ [(k, v)])"
  by (rule ext) (simp add: map_add_def split: option.splits)

lemma bind_positional_eq:
  "bind_positional ps (enumerate i vs) (pd, ovf) =
     (pd ++ map_of (rev (zip (map fst (drop i ps)) vs)), ovf @ drop (length ps - i) vs)"
proof (induction vs arbitrary: i pd ovf)
  case Nil
  show ?case by simp
next
  case (Cons v vs)
  show ?case
  proof (cases "i < length ps")
    case True
    then have d: "drop i ps = ps ! i # drop (Suc i) ps"
      by (simp add: Cons_nth_drop_Suc)
    have s: "drop (length ps - i) (v # vs) = drop (length ps - Suc i) vs"
      using True by (simp add: drop_Cons')
    show ?thesis
      using True by (simp add: Cons.IH d s map_add_snoc' del: map_of_append)
  next
    case False
    then show ?thesis by (simp add: Cons.IH)
  qed
qed

lemma bind_keywords_eq:
  "bind_keywords ps kws (pd, acc) =
     (pd ++ map_of (rev (filter (\<lambda>kv. fst kv \<in> fst ` set ps) kws)),
      acc @ filter (\<lambda>kv. fst kv \<notin> fst ` set ps) kws)"
proof (induction kws arbitrary: pd acc)
  case Nil
  show ?case by simp
next
  case (Cons kv kws)
  obtain k v where kv: "kv = (k, v)" by (cases kv)
  show ?case
    by (simp add: kv Cons.IH has_parameter_iff map_add_snoc' del: map_of_append)
qed

lemma ArgumentMapping_init_eq:
  "param_dict (ArgumentMapping_init D C) =
     map_of (rev (zip (map fst (args_with_defaults D)) (args C)))
     ++ map_of (rev (filter (\<lambda>kv. fst kv \<in> fst ` set (args_with_defaults D)) (keywords_list C)))"
  "ArgumentMapping.args_arg (ArgumentMapping_init D C) =
     drop (length (args_with_defaults D)) (args C)"
  "keyword_args (ArgumentMapping_init D C) =
     filter (\<lambda>kv. fst kv \<notin> fst ` set (args_with_defaults D)) (keywords_list C)"
  "call_info (ArgumentMapping_init D C) = C"
  using bind_positional_eq [of "args_with_defaults D" 0 "args C" Map.empty "[]"]
  by (simp_all add: ArgumentMapping_init_def bind_keywords_eq Let_def)

lemma map_of_keyed:
  "map_of (map (\<lambda>p. (fst p, f (fst p))) xs) k =
     (if k \<in> fst ` set xs then Some (f k) else None)"
  by (induction xs) auto

lemma dom_param_dict:
  "dom (param_dict (ArgumentMapping_init D C)) \<subseteq> fst ` set (args_with_defaults D)"
proof -
  have "fst ` set (zip (map fst (args_with_defaults D)) (args C))
          \<subseteq> fst ` set (args_with_defaults D)"
    by (auto dest: set_zip_leftD)
  then show ?thesis
    by (auto simp: ArgumentMapping_init_eq dom_map_of_conv_image_fst)
qed

lemma overflow_all_bound:
  assumes "ArgumentMapping.args_arg (ArgumentMapping_init D C) \<noteq> []"
    and "p \<in> set (args_with_defaults D)"
  shows "param_dict (ArgumentMapping_init D C) (fst p) \<noteq> None"
proof -
  let ?ns = "map fst (args_with_defaults D)"
  from assms(1) have len: "length ?ns \<le> length (args C)"
    by (simp add: ArgumentMapping_init_eq)
  then have m: "map fst (zip ?ns (args C)) = ?ns"
    by (simp add: map_fst_zip_take min_def)
  have "fst ` set (zip ?ns (args C)) = set (map fst (zip ?ns (args C)))"
    by simp
  also have "\<dots> = set ?ns"
    by (simp only: m)
  finally have "fst p \<in> dom (map_of (rev (zip ?ns (args C))))"
    using assms(2) by (simp add: dom_map_of_conv_image_fst)
  then have "fst p \<in> dom (param_dict (ArgumentMapping_init D C))"
    by (simp add: ArgumentMapping_init_eq)
  then show ?thesis
    by blast
qed

lemma walk_prefix_covers:
  fixes ps :: "('n \<times> 'd) list"
  shows "fst ` set (takeWhile b ps) \<union> fst ` set (filter b (dropWhile b ps)) = fst ` {p \<in> set ps. b p}"
proof -
  have "set (takeWhile b ps) \<union> set (filter b (dropWhile b ps)) = {p \<in> set ps. b p}" (is "?l = ?r")
  proof
    show "?l \<subseteq> ?r"
      by (auto dest: set_takeWhileD set_dropWhileD)
    have "set ps = set (takeWhile b ps) \<union> set (dropWhile b ps)"
      by (metis set_append takeWhile_dropWhile_id)
    then show "?r \<subseteq> ?l"
      by auto
  qed
  then show ?thesis
    by (metis image_Un)
qed

lemma roundtrip:
  fixes D :: "'n DefinitionInfo" and C :: "'n CallInfo"
  defines "M \<equiv> ArgumentMapping_init D C"
  defines "R \<equiv> to_call_info M D"
  shows "param_dict (ArgumentMapping_init D R) = param_dict M"
    and "ArgumentMapping.args_arg (ArgumentMapping_init D R) = ArgumentMapping.args_arg M"
    and "keyword_args (ArgumentMapping_init D R) = keyword_args M"
proof -
  let ?ps = "args_with_defaults D"
  let ?pd = "param_dict M"
  let ?b = "\<lambda>p. ?pd (fst p) \<noteq> None"
  let ?h = "\<lambda>p. (fst p, the (?pd (fst p)))"
  let ?pre = "takeWhile ?b ?ps"
  let ?post = "filter ?b (dropWhile ?b ?ps)"
  let ?ovf = "ArgumentMapping.args_arg M"
  have argsR: "args R = map (\<lambda>p. the (?pd (fst p))) ?pre @ ?ovf"
    and kwsR: "keywords_list R = map ?h ?post @ keyword_args M"
    by (simp_all only: R_def to_call_info_args to_call_info_keywords)
  have pre_len: "length ?pre \<le> length ?ps"
    by (rule length_takeWhile_le)
  have full: "?pre = ?ps" if "?ovf \<noteq> []"
    using that overflow_all_bound [of D C] by (simp add: M_def)
  have ovf_eq: "?ovf = drop (length ?ps) (args C)"
    by (simp add: M_def ArgumentMapping_init_eq)
  have split: "?ps = ?pre @ dropWhile ?b ?ps"
    by simp
  have zipR: "zip (map fst ?ps) (args R) = map ?h ?pre"
  proof (cases "?ovf = []")
    case True
    have "zip (map fst ?ps) (args R) = zip (map fst (?pre @ dropWhile ?b ?ps)) (map (\<lambda>p. the (?pd (fst p))) ?pre)"
      using True argsR by simp
    also have "\<dots> = zip (map fst ?pre) (map (\<lambda>p. the (?pd (fst p))) ?pre)"
      by (simp add: zip_append1 del: takeWhile_dropWhile_id)
    also have "\<dots> = map ?h ?pre"
      by (simp add: zip_map_map zip_same_conv_map)
    finally show ?thesis .
  next
    case False
    then have e: "?pre = ?ps" by (rule full)
    have "zip (map fst ?ps) (args R) = zip (map fst ?ps) (map (\<lambda>p. the (?pd (fst p))) ?ps @ ?ovf)"
      by (simp only: argsR e)
    also have "\<dots> = zip (map fst ?ps) (map (\<lambda>p. the (?pd (fst p))) ?ps)"
      by (simp add: zip_append2)
    also have "\<dots> = map ?h ?ps"
      by (simp add: zip_map_map zip_same_conv_map)
    finally show ?thesis by (simp only: e)
  qed
  have post_in: "fst kv \<in> fst ` set ?ps" if "kv \<in> set (map ?h ?post)" for kv
  proof -
    from that obtain p where "p \<in> set (dropWhile ?b ?ps)" and "kv = ?h p"
      by auto
    then show ?thesis
      by (auto dest: set_dropWhileD)
  qed
  have ka_out: "fst kv \<notin> fst ` set ?ps" if "kv \<in> set (keyword_args M)" for kv
    using that by (auto simp: M_def ArgumentMapping_init_eq)
  have f_in: "filter (\<lambda>kv. fst kv \<in> fst ` set ?ps) (keywords_list R) = map ?h ?post"
    using post_in ka_out by (simp add: kwsR filter_id_conv filter_empty_conv)
  have f_out: "filter (\<lambda>kv. fst kv \<notin> fst ` set ?ps) (keywords_list R) = keyword_args M"
    using post_in ka_out by (simp add: kwsR filter_id_conv filter_empty_conv)
  show "keyword_args (ArgumentMapping_init D R) = keyword_args M"
    by (simp add: ArgumentMapping_init_eq f_out)
  show "ArgumentMapping.args_arg (ArgumentMapping_init D R) = ?ovf"
  proof (cases "?ovf = []")
    case True
    then show ?thesis using pre_len by (simp add: ArgumentMapping_init_eq argsR)
  next
    case False
    then have e: "?pre = ?ps" by (rule full)
    have "args R = map (\<lambda>p. the (?pd (fst p))) ?ps @ ?ovf"
      by (simp only: argsR e)
    then show ?thesis by (simp add: ArgumentMapping_init_eq)
  qed
  show "param_dict (ArgumentMapping_init D R) = ?pd"
  proof (rule ext)
    fix k
    have dom: "k \<in> dom ?pd \<Longrightarrow> k \<in> fst ` set ?ps"
      using dom_param_dict [of D C] by (auto simp: M_def)
    have cover: "fst ` set ?pre \<union> fst ` set ?post = fst ` {p \<in> set ?ps. ?b p}"
      by (rule walk_prefix_covers)
    have bound_iff: "k \<in> fst ` set ?pre \<union> fst ` set ?post \<longleftrightarrow> ?pd k \<noteq> None"
      unfolding cover using dom by (auto simp: dom_def)
    have "param_dict (ArgumentMapping_init D R) k =
            (map_of (rev (map ?h ?pre)) ++ map_of (rev (map ?h ?post))) k"
      by (simp add: ArgumentMapping_init_eq zipR f_in)
    also have "\<dots> = (if k \<in> fst ` set ?pre \<union> fst ` set ?post then Some (the (?pd k)) else None)"
      using map_of_keyed [of "\<lambda>n. the (?pd n)" "rev ?pre" k]
        map_of_keyed [of "\<lambda>n. the (?pd n)" "rev ?post" k]
      by (simp add: rev_map map_add_def split: option.splits)
    also have "\<dots> = ?pd k"
      using bound_iff by auto
    finally show "param_dict (ArgumentMapping_init D R) k = ?pd k" .
  qed
qed


lemma map_of_rev_distinct: "distinct (map fst xs) \<Longrightarrow> map_of (rev xs) = map_of xs"
proof (induction xs)
  case Nil
  show ?case by simp
next
  case (Cons x xs)
  then have "map_of xs (fst x) = None"
    by (simp add: map_of_eq_None_iff)
  then show ?case
    using Cons by (cases x) (auto simp: map_add_def fun_eq_iff split: option.splits)
qed

lemma walk_all_then_none:
  assumes "\<And>p. p \<in> set xs \<Longrightarrow> b p" and "\<And>p. p \<in> set ys \<Longrightarrow> \<not> b p"
  shows "takeWhile b (xs @ ys) = xs" and "filter b (dropWhile b (xs @ ys)) = []"
proof -
  have t: "takeWhile b ys = []"
    using assms(2) by (cases ys) auto
  have d: "dropWhile b ys = ys"
    using assms(2) by (cases ys) auto
  show "takeWhile b (xs @ ys) = xs"
    using assms(1) by (simp add: takeWhile_append2 t)
  show "filter b (dropWhile b (xs @ ys)) = []"
    using assms by (simp add: dropWhile_append2 d filter_empty_conv)
qed

lemma positional_only_split:
  fixes D :: "'n DefinitionInfo" and C :: "'n CallInfo"
  assumes dist: "distinct (map fst (args_with_defaults D))"
    and nokw: "\<forall>kv \<in> set (keywords_list C). fst kv \<notin> fst ` set (args_with_defaults D)"
  shows "args (to_call_info (ArgumentMapping_init D C) D) = args C"
    and "keywords_list (to_call_info (ArgumentMapping_init D C) D) = keywords_list C"
proof -
  let ?ps = "args_with_defaults D"
  let ?M = "ArgumentMapping_init D C"
  let ?pd = "param_dict ?M"
  let ?b = "\<lambda>p. ?pd (fst p) \<noteq> None"
  define k where "k = min (length ?ps) (length (args C))"
  define xs where "xs = take k (map fst ?ps)"
  define ys where "ys = take k (args C)"
  have len: "length xs = length ys" and lenk: "length ys = k"
    by (simp_all add: xs_def ys_def k_def)
  have dxs: "distinct xs"
    using dist by (simp add: xs_def)
  have "zip (map fst ?ps) (args C) = take k (zip (map fst ?ps) (args C))"
    by (simp add: k_def)
  then have z: "zip (map fst ?ps) (args C) = zip xs ys"
    by (simp add: take_zip xs_def ys_def)
  have f1: "filter (\<lambda>kv. fst kv \<in> fst ` set ?ps) (keywords_list C) = []"
    using nokw by (simp add: filter_empty_conv)
  have f2: "filter (\<lambda>kv. fst kv \<notin> fst ` set ?ps) (keywords_list C) = keywords_list C"
    using nokw by (simp add: filter_id_conv)
  have "distinct (map fst (zip xs ys))"
    using dxs len by simp
  then have pd: "?pd = map_of (zip xs ys)"
    by (simp add: ArgumentMapping_init_eq f1 z map_of_rev_distinct)
  have dom: "dom ?pd = set xs"
    using len by (simp add: pd dom_map_of_zip)
  have xs_pre: "xs = map fst (take k ?ps)"
    by (simp add: xs_def take_map)
  have in_pre: "?b p" if "p \<in> set (take k ?ps)" for p
  proof -
    from that have "fst p \<in> set xs" by (simp add: xs_pre)
    then show ?thesis using dom by blast
  qed
  have not_post: "\<not> ?b p" if "p \<in> set (drop k ?ps)" for p
  proof -
    from that have "fst p \<in> set (drop k (map fst ?ps))" by (simp add: drop_map)
    moreover have "set (take k (map fst ?ps)) \<inter> set (drop k (map fst ?ps)) = {}"
      using dist by (metis append_take_drop_id distinct_append)
    ultimately have "fst p \<notin> set xs" by (auto simp: xs_def)
    then show ?thesis using dom by blast
  qed
  have tw: "takeWhile ?b ?ps = take k ?ps"
    using walk_all_then_none(1) [of "take k ?ps" ?b "drop k ?ps"] in_pre not_post by simp
  have fl: "filter ?b (dropWhile ?b ?ps) = []"
    using walk_all_then_none(2) [of "take k ?ps" ?b "drop k ?ps"] in_pre not_post by simp
  have vals: "map (\<lambda>p. the (?pd (fst p))) (take k ?ps) = ys"
  proof (rule nth_equalityI)
    show "length (map (\<lambda>p. the (?pd (fst p))) (take k ?ps)) = length ys"
      by (simp add: ys_def k_def)
  next
    fix i
    assume "i < length (map (\<lambda>p. the (?pd (fst p))) (take k ?ps))"
    then have i: "i < k" by simp
    then have "i < length ys" by (simp add: lenk)
    then have "map_of (zip xs ys) (xs ! i) = Some (ys ! i)"
      using len dxs by (simp add: map_of_zip_nth)
    moreover have "fst (take k ?ps ! i) = xs ! i"
      using i len lenk by (simp add: xs_pre)
    ultimately show "map (\<lambda>p. the (?pd (fst p))) (take k ?ps) ! i = ys ! i"
      using i by (simp add: pd k_def)
  qed
  have whole: "ys @ drop (length ?ps) (args C) = args C"
  proof (cases "length ?ps \<le> length (args C)")
    case True
    then show ?thesis by (simp add: ys_def k_def min_def)
  next
    case False
    then show ?thesis by (simp add: ys_def k_def min_def)
  qed
  have "args (to_call_info ?M D) =
          map (\<lambda>p. the (?pd (fst p))) (takeWhile ?b ?ps) @ ArgumentMapping.args_arg ?M"
    by (rule to_call_info_args)
  also have "\<dots> = ys @ drop (length ?ps) (args C)"
    by (simp only: tw vals ArgumentMapping_init_eq(2))
  finally show "args (to_call_info ?M D) = args C"
    by (simp only: whole)
  have "keywords_list (to_call_info ?M D) =
          map (\<lambda>p. (fst p, the (?pd (fst p)))) (filter ?b (dropWhile ?b ?ps)) @ keyword_args ?M"
    by (rule to_call_info_keywords)
  also have "\<dots> = keywords_list C"
    by (simp only: fl ArgumentMapping_init_eq(3) f2 list.map append_Nil)
  finally show "keywords_list (to_call_info ?M D) = keywords_list C" .
qed

lemma emit_keywords_rel:
  "list_all2 (\<lambda>p q. (pd (fst p) = None \<and> pd' (fst q) = None)
                   \<or> (fst p = fst q \<and> pd (fst p) = pd' (fst q))) ps qs
   \<Longrightarrow> emit_keywords pd ps = emit_keywords pd' qs"
  by (induction ps qs rule: list_all2_induct) (auto split: option.splits)

lemma walk_parameters_rel:
  "list_all2 (\<lambda>p q. (pd (fst p) = None \<and> pd' (fst q) = None)
                   \<or> (fst p = fst q \<and> pd (fst p) = pd' (fst q))) ps qs
   \<Longrightarrow> walk_parameters pd ps acc = walk_parameters pd' qs acc"
proof (induction ps qs arbitrary: acc rule: list_all2_induct)
  case Nil
  show ?case by simp
next
  case (Cons p ps q qs)
  from Cons.hyps(2) have "emit_keywords pd ps = emit_keywords pd' qs"
    by (rule emit_keywords_rel)
  with Cons show ?case
    by (auto split: option.splits)
qed

section \<open>Properties of the parsers\<close>

lemma rindex_None_iff: "rindex s c = None \<longleftrightarrow> c \<notin> set s"
  by (induction s) (auto split: option.splits)

lemma rindex_snoc: "rindex (xs @ [c]) c = Some (length xs)"
  by (induction xs) auto

lemma rindex_append_notin: "c \<notin> set ys \<Longrightarrow> rindex (xs @ c # ys) c = Some (length xs)"
proof (induction xs)
  case Nil
  then have "rindex ys c = None" by (simp add: rindex_None_iff)
  then show ?case by simp
next
  case (Cons x xs)
  then show ?case by simp
qed

lemma match_open_plain:
  "\<forall>x\<in>set xs. \<not> is_quote x \<and> \<not> is_opener x \<and> \<not> is_closer x
   \<Longrightarrow> match_open (xs @ CHR ''('' # rest) 0 None = Some (length xs)"
  by (induction xs) (auto simp: is_quote_def is_opener_def is_closer_def)

lemma find_parens_start_plain:
  assumes "\<forall>x\<in>set inner. \<not> is_quote x \<and> \<not> is_opener x \<and> \<not> is_closer x"
  shows "find_parens_start (pre @ ''('' @ inner @ post) (length pre + 1 + length inner) = Inr (length pre)"
proof -
  have "take (length pre + 1 + length inner) (pre @ ''('' @ inner @ post) = pre @ ''('' @ inner"
    by simp
  then have "rev (take (length pre + 1 + length inner) (pre @ ''('' @ inner @ post))
             = rev inner @ CHR ''('' # rev pre"
    by simp
  moreover have "match_open (rev inner @ CHR ''('' # rev pre) 0 None = Some (length (rev inner))"
    using assms by (intro match_open_plain) simp
  ultimately show ?thesis
    by (simp add: find_parens_start_def)
qed

lemma get_line_start_first: "get_line_start (SourceLinesAdapter s) (Suc 0) = Inr 0"
  by (simp add: get_line_start_def SourceLinesAdapter_def)

lemma get_source_range_first_line:
  "lines self = SourceLinesAdapter s \<Longrightarrow> lineno a = 1 \<Longrightarrow> end_lineno a = 1
   \<Longrightarrow> get_source_range self a = Inr (slice s (col_offset a) (end_col_offset a))"
  by (simp add: get_source_range_def get_line_start_first) (simp add: SourceLinesAdapter_def)

lemma arg_ranges_first_line:
  "lines self = SourceLinesAdapter s \<Longrightarrow> \<forall>a\<in>set as. lineno a = 1 \<and> end_lineno a = 1
   \<Longrightarrow> arg_ranges self as = Inr (map (\<lambda>a. slice s (col_offset a) (end_col_offset a)) as)"
  by (induction as) (simp_all add: get_source_range_first_line)

lemma keyword_ranges_first_line:
  "lines self = SourceLinesAdapter s
   \<Longrightarrow> \<forall>k\<in>set ks. lineno (kw_value k) = 1 \<and> end_lineno (kw_value k) = 1
                   \<and> kw_arg k \<noteq> None \<and> kw_arg k \<noteq> Some []
   \<Longrightarrow> keyword_ranges self ks =
         Inr (map (\<lambda>k. (the (kw_arg k),
                         slice s (col_offset (kw_value k)) (end_col_offset (kw_value k)))) ks)"
  by (induction ks) (auto simp: get_source_range_first_line split: option.splits)

lemma strip_no_space: "s \<noteq> [] \<Longrightarrow> \<not> is_space (hd s) \<Longrightarrow> \<not> is_space (last s) \<Longrightarrow> strip s = s"
proof -
  assume a: "s \<noteq> []" "\<not> is_space (hd s)" "\<not> is_space (last s)"
  then have 1: "dropWhile is_space s = s"
    by (cases s) auto
  from a have "rev s \<noteq> []" and "\<not> is_space (hd (rev s))"
    by (simp_all add: hd_rev)
  then have 2: "dropWhile is_space (rev s) = rev s"
    by (cases "rev s") auto
  show ?thesis by (simp add: strip_def 1 2)
qed

lemma word_before_dot:
  "\<forall>x\<in>set m. is_ident x \<Longrightarrow> rev (takeWhile is_ident (rev (r @ CHR ''.'' # m))) = m"
proof -
  assume m: "\<forall>x\<in>set m. is_ident x"
  have nd: "\<not> is_ident (CHR ''.'')" by (simp add: is_ident_def)
  have "takeWhile is_ident (rev m @ CHR ''.'' # rev r) = rev m"
    using m nd by (simp add: takeWhile_tail)
  then show ?thesis by simp
qed

lemma is_ident_not_dot: "is_ident x \<Longrightarrow> x \<noteq> CHR ''.''"
  by (auto simp: is_ident_def)

lemma is_ident_not_star: "is_ident x \<Longrightarrow> x \<noteq> CHR ''*''"
  by (auto simp: is_ident_def)

lemma is_ident_not_space: "is_ident x \<Longrightarrow> \<not> is_space x"
  by (auto simp: is_ident_def is_space_def)

lemma dot_not_space: "\<not> is_space (CHR ''.'')"
  by (simp add: is_space_def)

lemma strip_spreads_plain:
  "\<forall>a\<in>set as. \<not> startswith a ''*'' \<Longrightarrow> strip_spreads as = (as, None, None)"
proof -
  assume a: "\<forall>a\<in>set as. \<not> startswith a ''*''"
  have "\<not> startswith x ''**''" if "\<not> startswith x ''*''" for x
    using that by (cases x) (auto simp: startswith_def)
  with a have "as \<noteq> [] \<Longrightarrow> \<not> startswith (last as) ''**'' \<and> \<not> startswith (last as) ''*''"
    by auto
  then show ?thesis
    by (auto simp: strip_spreads_def)
qed

lemma takeWhile_stops_at:
  "i < length xs \<Longrightarrow> \<not> P (xs ! i) \<Longrightarrow> takeWhile P xs = takeWhile P (take i xs)"
proof -
  assume i: "i < length xs" and n: "\<not> P (xs ! i)"
  have "xs = take i xs @ xs ! i # drop (Suc i) xs"
    using i by (rule id_take_nth_drop)
  then have "takeWhile P xs = takeWhile P (take i xs @ xs ! i # drop (Suc i) xs)"
    by simp
  also have "\<dots> = takeWhile P (take i xs)"
    using n by (rule takeWhile_tail)
  finally show ?thesis .
qed

lemma constructor_read_args:
  "CallInfo_read ast_parse is_method_call True is_classmethod definition_info c = Inr cr
   \<Longrightarrow> args_with_defaults definition_info = p # ps
   \<Longrightarrow> \<exists>as. args cr = fst p # as"
  by (auto simp: CallInfo_read_def split: sum.splits prod.splits)

lemma first_parameter_bound:
  assumes a: "args ci = n # as"
    and p: "args_with_defaults D = (n, d) # ps"
    and once: "n \<notin> fst ` set ps"
    and nokw: "n \<notin> fst ` set (keywords_list ci)"
  shows "param_dict (ArgumentMapping_init D ci) n = Some n"
proof -
  have "n \<notin> fst ` set (zip (map fst ps) as)"
    using once by (auto dest: set_zip_leftD)
  then have 1: "map_of (rev (zip (map fst ps) as)) n = None"
    by (simp add: map_of_eq_None_iff)
  have "n \<notin> fst ` set (filter (\<lambda>kv. fst kv \<in> fst ` set (args_with_defaults D)) (keywords_list ci))"
    using nokw by auto
  then have 2: "map_of (rev (filter (\<lambda>kv. fst kv \<in> fst ` set (args_with_defaults D))
                  (keywords_list ci))) n = None"
    by (simp add: map_of_eq_None_iff)
  have "map_of (rev (zip (map fst (args_with_defaults D)) (args ci))) n = Some n"
    by (simp add: a p map_add_def 1)
  then show ?thesis
    by (simp add: ArgumentMapping_init_eq(1) map_add_def 2)
qed

section \<open>The claims\<close>

text \<open>
  C2. Rendering is one pass over the parameters of the target definition. The positional
  arguments are the bound texts of the longest prefix of parameters that are all bound,
  followed by the overflow; the keyword arguments are the bound parameters among all the
  remaining ones, from the first unbound parameter to the end, followed by the overflow
  keywords. No parameter behind the first gap is emitted positionally. In particular, with
  the parameters (a, b, c) and bindings for a and c only, a is positional, c is a keyword
  argument and b is left out.
\<close>

theorem to_call_info_gap_switches_to_keywords:
  fixes self :: "'n ArgumentMapping" and definition_info :: "'n DefinitionInfo"
  defines "ps \<equiv> args_with_defaults definition_info"
  defines "bound \<equiv> \<lambda>p. param_dict self (fst p) \<noteq> None"
  shows "args (to_call_info self definition_info) =
           map (\<lambda>p. the (param_dict self (fst p))) (takeWhile bound ps)
           @ ArgumentMapping.args_arg self
       \<and> keywords_list (to_call_info self definition_info) =
           map (\<lambda>p. (fst p, the (param_dict self (fst p)))) (filter bound (dropWhile bound ps))
           @ keyword_args self
       \<and> (ps = [(a, da), (b, db), (c, dc)] \<and> param_dict self a = Some x
            \<and> param_dict self b = None \<and> param_dict self c = Some z
          \<longrightarrow> args (to_call_info self definition_info) = [x] @ ArgumentMapping.args_arg self
            \<and> keywords_list (to_call_info self definition_info) = [(c, z)] @ keyword_args self)"
  unfolding ps_def bound_def
  by (auto simp: to_call_info_args to_call_info_keywords)

theorem to_call_info_gap_switches_to_keywords_witness:
  "args (to_call_info
      \<lparr>call_info = \<lparr>CallInfo.function_name = ''f'', args = [''1''],
           keywords_list = [(''c'', ''3'')], CallInfo.args_arg = None,
           CallInfo.keywords_arg = None, implicit_arg = False, constructor = False\<rparr>,
       param_dict = [''a'' \<mapsto> ''1'', ''c'' \<mapsto> ''3''], keyword_args = [],
       ArgumentMapping.args_arg = []\<rparr>
      \<lparr>DefinitionInfo.function_name = ''f'', is_method = False,
       args_with_defaults = [(''a'', None), (''b'', None), (''c'', None)],
       DefinitionInfo.args_arg = None, DefinitionInfo.keywords_arg = None\<rparr>) = [''1'']
   \<and> keywords_list (to_call_info
      \<lparr>call_info = \<lparr>CallInfo.function_name = ''f'', args = [''1''],
           keywords_list = [(''c'', ''3'')], CallInfo.args_arg = None,
           CallInfo.keywords_arg = None, implicit_arg = False, constructor = False\<rparr>,
       param_dict = [''a'' \<mapsto> ''1'', ''c'' \<mapsto> ''3''], keyword_args = [],
       ArgumentMapping.args_arg = []\<rparr>
      \<lparr>DefinitionInfo.function_name = ''f'', is_method = False,
       args_with_defaults = [(''a'', None), (''b'', None), (''c'', None)],
       DefinitionInfo.args_arg = None, DefinitionInfo.keywords_arg = None\<rparr>) = [(''c'', ''3'')]"
  using to_call_info_gap_switches_to_keywords
    [where definition_info = "\<lparr>DefinitionInfo.function_name = ''f'', is_method = False,
       args_with_defaults = [(''a'', None), (''b'', None), (''c'', None)],
       DefinitionInfo.args_arg = None, DefinitionInfo.keywords_arg = None\<rparr>"
       and a = "''a''" and da = None and b = "''b''" and db = None and c = "''c''" and dc = None
       and self = "\<lparr>call_info = \<lparr>CallInfo.function_name = ''f'', args = [''1''],
           keywords_list = [(''c'', ''3'')], CallInfo.args_arg = None,
           CallInfo.keywords_arg = None, implicit_arg = False, constructor = False\<rparr>,
       param_dict = [''a'' \<mapsto> ''1'', ''c'' \<mapsto> ''3''], keyword_args = [],
       ArgumentMapping.args_arg = []\<rparr>" and x = "''1''" and z = "''3''"]
  by simp


text \<open>
  C1 (as amended). Rendering the mapping built from a definition and a call back against
  the same definition gives a call that binds the same texts to the same parameters:
  building the mapping again from the rendered call gives the same \<open>param_dict\<close>, the
  same positional overflow and the same keyword overflow, and the callee name, the
  spreads and the two flags are those of the call. When the parameter names are distinct
  and no keyword argument of the call names a parameter, the rendered call is the call
  itself. A keyword argument that names a parameter may come back as a positional
  argument, also in a call that follows the order of the definition.
\<close>

theorem roundtrip_keeps_bindings:
  fixes D :: "'n DefinitionInfo" and C :: "'n CallInfo"
  defines "M \<equiv> ArgumentMapping_init D C"
  defines "R \<equiv> to_call_info M D"
  shows "param_dict (ArgumentMapping_init D R) = param_dict M
       \<and> ArgumentMapping.args_arg (ArgumentMapping_init D R) = ArgumentMapping.args_arg M
       \<and> keyword_args (ArgumentMapping_init D R) = keyword_args M
       \<and> CallInfo.function_name R = CallInfo.function_name C
       \<and> CallInfo.args_arg R = CallInfo.args_arg C
       \<and> CallInfo.keywords_arg R = CallInfo.keywords_arg C
       \<and> implicit_arg R = implicit_arg C
       \<and> constructor R = constructor C
       \<and> (distinct (map fst (args_with_defaults D))
            \<and> (\<forall>kv \<in> set (keywords_list C). fst kv \<notin> fst ` set (args_with_defaults D))
          \<longrightarrow> R = C)"
proof -
  have fields: "CallInfo.function_name R = CallInfo.function_name C"
    "CallInfo.args_arg R = CallInfo.args_arg C"
    "CallInfo.keywords_arg R = CallInfo.keywords_arg C"
    "implicit_arg R = implicit_arg C"
    "constructor R = constructor C"
    by (simp_all add: R_def M_def to_call_info_fields ArgumentMapping_init_eq(4))
  have same: "R = C"
    if "distinct (map fst (args_with_defaults D))"
      and "\<forall>kv \<in> set (keywords_list C). fst kv \<notin> fst ` set (args_with_defaults D)"
  proof -
    have "args R = args C" and "keywords_list R = keywords_list C"
      using positional_only_split [OF that] by (simp_all add: R_def M_def)
    then show ?thesis
      using fields by (simp add: CallInfo.equality R_def to_call_info_def split: prod.splits)
  qed
  show ?thesis
    using roundtrip [of D C] fields same by (simp add: R_def M_def)
qed

theorem roundtrip_keeps_bindings_witness:
  "to_call_info
     (ArgumentMapping_init (plain_definition ''f'' [''a'', ''b''] None)
        (plain_call ''f'' [''1'', ''2''] [(''z'', ''3'')]))
     (plain_definition ''f'' [''a'', ''b''] None)
   = plain_call ''f'' [''1'', ''2''] [(''z'', ''3'')]"
  using roundtrip_keeps_bindings
    [where D = "plain_definition ''f'' [''a'', ''b''] None"
       and C = "plain_call ''f'' [''1'', ''2''] [(''z'', ''3'')]"]
  by (simp add: plain_definition_def plain_call_def)

text \<open>
  The call \<open>f(1, b=2)\<close> follows the order of \<open>def f(a, b)\<close>, and it is rendered
  back as \<open>f(1, 2)\<close>: the keyword argument has become positional.
\<close>

theorem roundtrip_split_counterexample:
  "follows_definition_order (plain_definition ''f'' [''a'', ''b''] None)
     (plain_call ''f'' [''1''] [(''b'', ''2'')])
   \<and> to_call_info
       (ArgumentMapping_init (plain_definition ''f'' [''a'', ''b''] None)
          (plain_call ''f'' [''1''] [(''b'', ''2'')]))
       (plain_definition ''f'' [''a'', ''b''] None)
     = plain_call ''f'' [''1'', ''2''] []
   \<and> plain_call ''f'' [''1'', ''2''] [] \<noteq> (plain_call ''f'' [''1''] [(''b'', ''2'')] :: string CallInfo)"
  by (simp add: follows_definition_order_def plain_definition_def plain_call_def
      to_call_info_def ArgumentMapping_init_def)

text \<open>
  C4 (as amended). The mapping is keyed by the parameter names of the definition it was
  built from. Let the names of that definition be distinct and let the target
  definition be the same one with the parameter at position \<open>i\<close> renamed to a name that
  the old definition does not declare. The mapping has no binding for the new name, and
  the rendered call is the rendering, against the old definition, of the mapping
  without the binding of the old name. Its positional arguments are the bound texts of
  the longest all-bound run of parameters before position \<open>i\<close>, followed by the
  positional overflow of the call; a keyword argument of the result that carries the new
  name is one of the keyword overflow of the call; every bound parameter behind position
  \<open>i\<close> is a keyword argument of the result. The overflow of the call is appended as
  always and can fall on the renamed slot: \<open>f(1, 2, 3)\<close> built against
  \<open>def f(a, b, *rest)\<close> and rendered for \<open>def f(a, c, *rest)\<close> is \<open>f(1, 3)\<close>.
\<close>

theorem rename_drops_binding:
  fixes D D' :: "'n DefinitionInfo" and C :: "'n CallInfo"
  defines "ps \<equiv> args_with_defaults D"
  defines "M \<equiv> ArgumentMapping_init D C"
  defines "R \<equiv> to_call_info M D'"
  assumes dist: "distinct (map fst ps)"
    and i: "i < length ps"
    and fresh: "new \<notin> fst ` set ps"
    and D': "args_with_defaults D' = ps[i := (new, snd (ps ! i))]"
  shows "R = to_call_info (M\<lparr>param_dict := (param_dict M)(fst (ps ! i) := None)\<rparr>) D
       \<and> param_dict M new = None
       \<and> args R = map (\<lambda>p. the (param_dict M (fst p)))
                     (takeWhile (\<lambda>p. param_dict M (fst p) \<noteq> None) (take i ps))
                   @ ArgumentMapping.args_arg M
       \<and> (\<forall>kv\<in>set (keywords_list R). fst kv = new \<longrightarrow> kv \<in> set (keyword_args M))
       \<and> (\<forall>j v. i < j \<and> j < length ps \<and> param_dict M (fst (ps ! j)) = Some v
             \<longrightarrow> (fst (ps ! j), v) \<in> set (keywords_list R))
       \<and> to_call_info
           (ArgumentMapping_init (plain_definition ''f'' [''a'', ''b''] (Some ''rest''))
              (plain_call ''f'' [''1'', ''2'', ''3''] []))
           (plain_definition ''f'' [''a'', ''c''] (Some ''rest''))
         = plain_call ''f'' [''1'', ''3''] []"
proof -
  have ex: "to_call_info
           (ArgumentMapping_init (plain_definition ''f'' [''a'', ''b''] (Some ''rest''))
              (plain_call ''f'' [''1'', ''2'', ''3''] []))
           (plain_definition ''f'' [''a'', ''c''] (Some ''rest''))
         = plain_call ''f'' [''1'', ''3''] []"
    by (simp add: plain_definition_def plain_call_def to_call_info_def ArgumentMapping_init_def)
  let ?pd = "param_dict M"
  let ?old = "fst (ps ! i)"
  let ?pd' = "?pd(?old := None)"
  let ?ps' = "ps[i := (new, snd (ps ! i))]"
  let ?b = "\<lambda>p. ?pd (fst p) \<noteq> None"
  let ?h = "\<lambda>p. (fst p, the (?pd (fst p)))"
  have new_unbound: "?pd new = None"
    using dom_param_dict [of D C] fresh by (auto simp: M_def ps_def)
  have "list_all2 (\<lambda>p q. (?pd (fst p) = None \<and> ?pd' (fst q) = None)
                   \<or> (fst p = fst q \<and> ?pd (fst p) = ?pd' (fst q))) ?ps' ps"
  proof (rule list_all2_all_nthI)
    show "length ?ps' = length ps" by simp
  next
    fix j
    assume "j < length ?ps'"
    then have j: "j < length ps" by simp
    show "(?pd (fst (?ps' ! j)) = None \<and> ?pd' (fst (ps ! j)) = None)
          \<or> (fst (?ps' ! j) = fst (ps ! j) \<and> ?pd (fst (?ps' ! j)) = ?pd' (fst (ps ! j)))"
    proof (cases "j = i")
      case True
      then show ?thesis using i new_unbound by simp
    next
      case False
      have "map fst ps ! j \<noteq> map fst ps ! i"
        using nth_eq_iff_index_eq [OF dist, of j i] i j False by simp
      then have "fst (ps ! j) \<noteq> ?old"
        using i j by simp
      then show ?thesis using False j by simp
    qed
  qed
  then have "walk_parameters ?pd (args_with_defaults D') [] = walk_parameters ?pd' ps []"
    unfolding D' by (rule walk_parameters_rel)
  then have eq: "R = to_call_info (M\<lparr>param_dict := ?pd'\<rparr>) D"
    by (simp add: R_def to_call_info_def ps_def)
  have slot: "\<not> ?b (?ps' ! i)"
    using i new_unbound by simp
  have i': "i < length ?ps'"
    using i by simp
  have tw: "takeWhile ?b ?ps' = takeWhile ?b (take i ps)"
    using takeWhile_stops_at [of i ?ps' ?b] i' slot by simp
  have "args R = map (\<lambda>p. the (?pd (fst p))) (takeWhile ?b ?ps') @ ArgumentMapping.args_arg M"
    unfolding R_def D' [symmetric] by (rule to_call_info_args)
  then have pos: "args R = map (\<lambda>p. the (?pd (fst p))) (takeWhile ?b (take i ps))
                    @ ArgumentMapping.args_arg M"
    by (simp only: tw)
  have kws: "keywords_list R = map ?h (filter ?b (dropWhile ?b ?ps')) @ keyword_args M"
    unfolding R_def D' [symmetric] by (rule to_call_info_keywords)
  have named: "kv \<in> set (keyword_args M)" if "kv \<in> set (keywords_list R)" and "fst kv = new" for kv
  proof (rule ccontr)
    assume "kv \<notin> set (keyword_args M)"
    with that(1) have "kv \<in> set (map ?h (filter ?b (dropWhile ?b ?ps')))"
      by (simp add: kws)
    then obtain p where "?b p" and "kv = ?h p"
      by auto
    then have "?pd (fst kv) \<noteq> None"
      by simp
    with that(2) new_unbound show False
      by simp
  qed
  have behind: "(fst (ps ! j), v) \<in> set (keywords_list R)"
    if j: "i < j" "j < length ps" and v: "?pd (fst (ps ! j)) = Some v" for j v
  proof -
    define n0 where "n0 = length (takeWhile ?b ?ps')"
    have "n0 \<le> length (take i ps)"
      unfolding n0_def tw by (rule length_takeWhile_le)
    then have n0: "n0 \<le> j"
      using j by simp
    have same: "?ps' ! j = ps ! j"
      using j by simp
    have "drop n0 ?ps' ! (j - n0) = ?ps' ! j"
      using n0 j by simp
    moreover have "j - n0 < length (drop n0 ?ps')"
      using n0 j by simp
    ultimately have "?ps' ! j \<in> set (drop n0 ?ps')"
      by (metis nth_mem)
    then have "ps ! j \<in> set (dropWhile ?b ?ps')"
      by (simp only: same dropWhile_eq_drop n0_def)
    then have "ps ! j \<in> set (filter ?b (dropWhile ?b ?ps'))"
      using v by simp
    then have "?h (ps ! j) \<in> set (map ?h (filter ?b (dropWhile ?b ?ps')))"
      unfolding set_map by (rule imageI)
    then show ?thesis
      using v by (simp add: kws)
  qed
  show ?thesis
    using eq new_unbound pos named behind ex by blast
qed

theorem rename_drops_binding_witness:
  "to_call_info (ArgumentMapping_init (plain_definition ''f'' [''a'', ''b'', ''c''] None)
                   (plain_call ''f'' [''1'', ''2'', ''3''] []))
     (plain_definition ''f'' [''a'', ''x'', ''c''] None)
   = plain_call ''f'' [''1''] [(''c'', ''3'')]
   \<and> (''c'', ''3'') \<in> set (keywords_list
        (to_call_info (ArgumentMapping_init (plain_definition ''f'' [''a'', ''b'', ''c''] None)
                   (plain_call ''f'' [''1'', ''2'', ''3''] []))
           (plain_definition ''f'' [''a'', ''x'', ''c''] None)))"
  using rename_drops_binding
    [where D = "plain_definition ''f'' [''a'', ''b'', ''c''] None"
       and D' = "plain_definition ''f'' [''a'', ''x'', ''c''] None"
       and C = "plain_call ''f'' [''1'', ''2'', ''3''] []" and i = 1 and new = "''x''"]
  by (simp add: plain_definition_def plain_call_def to_call_info_def ArgumentMapping_init_def)

text \<open>
  With \<open>def f(a, b)\<close> and the call \<open>f(1, 2)\<close>, the text \<open>2\<close> is bound to \<open>b\<close>;
  rendering against \<open>def f(a, c)\<close> gives \<open>f(1)\<close>, in which the renamed slot has no
  argument.
\<close>

theorem rename_invariance_counterexample:
  "param_dict (ArgumentMapping_init (plain_definition ''f'' [''a'', ''b''] None)
                 (plain_call ''f'' [''1'', ''2''] [])) ''b'' = Some ''2''
   \<and> to_call_info (ArgumentMapping_init (plain_definition ''f'' [''a'', ''b''] None)
                     (plain_call ''f'' [''1'', ''2''] []))
        (plain_definition ''f'' [''a'', ''c''] None)
      = plain_call ''f'' [''1''] []
   \<and> param_dict (ArgumentMapping_init (plain_definition ''f'' [''a'', ''c''] None)
        (to_call_info (ArgumentMapping_init (plain_definition ''f'' [''a'', ''b''] None)
                         (plain_call ''f'' [''1'', ''2''] []))
           (plain_definition ''f'' [''a'', ''c''] None))) ''c'' = None"
  by (simp add: plain_definition_def plain_call_def to_call_info_def ArgumentMapping_init_def)

text \<open>
  C5. The call \<open>f(1, 2, 3)\<close> against \<open>def f(a, b, *rest)\<close> binds a to 1 and b to 2
  and leaves \<open>[3]\<close> as positional overflow. Rendering that mapping against
  \<open>def f(a, b, c, *rest)\<close> gives the positional arguments 1, 2, 3 and no keyword
  argument, printed as \<open>f(1, 2, 3)\<close>. For every mapping and definition the overflow is
  appended to what the walk over the parameters has produced: the positional overflow
  ends the positional arguments, the keyword overflow ends the keyword arguments.
\<close>

theorem overflow_routing:
  fixes self :: "'n ArgumentMapping" and definition_info :: "'n DefinitionInfo"
  shows "param_dict (ArgumentMapping_init (plain_definition ''f'' [''a'', ''b''] (Some ''rest''))
                 (plain_call ''f'' [''1'', ''2'', ''3''] [])) = [''a'' \<mapsto> ''1'', ''b'' \<mapsto> ''2'']
   \<and> ArgumentMapping.args_arg (ArgumentMapping_init (plain_definition ''f'' [''a'', ''b''] (Some ''rest''))
                 (plain_call ''f'' [''1'', ''2'', ''3''] [])) = [''3'']
   \<and> keyword_args (ArgumentMapping_init (plain_definition ''f'' [''a'', ''b''] (Some ''rest''))
                 (plain_call ''f'' [''1'', ''2'', ''3''] [])) = []
   \<and> to_call_info (ArgumentMapping_init (plain_definition ''f'' [''a'', ''b''] (Some ''rest''))
                 (plain_call ''f'' [''1'', ''2'', ''3''] []))
        (plain_definition ''f'' [''a'', ''b'', ''c''] (Some ''rest''))
      = plain_call ''f'' [''1'', ''2'', ''3''] []
   \<and> CallInfo_to_string (to_call_info (ArgumentMapping_init (plain_definition ''f'' [''a'', ''b''] (Some ''rest''))
                 (plain_call ''f'' [''1'', ''2'', ''3''] []))
        (plain_definition ''f'' [''a'', ''b'', ''c''] (Some ''rest''))) = Inr ''f(1, 2, 3)''
   \<and> args (to_call_info self definition_info) =
        fst (walk_parameters (param_dict self) (args_with_defaults definition_info) [])
        @ ArgumentMapping.args_arg self
   \<and> keywords_list (to_call_info self definition_info) =
        snd (walk_parameters (param_dict self) (args_with_defaults definition_info) [])
        @ keyword_args self"
  by (simp add: plain_definition_def plain_call_def to_call_info_def ArgumentMapping_init_def
      CallInfo_to_string_def split: prod.splits)

text \<open>
  C3 (as amended). For a constructor call \<open>CallInfo.read\<close> itself inserts the synthetic
  argument: its result is the result for the same call read as a plain call, with the
  name of the first parameter of the definition put at index 0 of the positional
  arguments (after the spreads have been removed) and the \<open>constructor\<close> flag set; it
  raises \<open>IndexError\<close> when the definition has no parameter. \<open>ArgumentMapping.__init__\<close>
  does not look at the flag and shifts nothing. It binds the first parameter to the
  inserted name when no other parameter has the same name and no keyword argument of
  the call names it (in \<open>C(1, self=9)\<close> the keyword wins).
\<close>

theorem constructor_argument_inserted:
  "CallInfo_read ast_parse is_method_call True is_classmethod definition_info c =
     (case CallInfo_read ast_parse is_method_call False is_classmethod definition_info c of
        Inl e \<Rightarrow> Inl e
      | Inr ci \<Rightarrow>
          (case args_with_defaults definition_info of
             [] \<Rightarrow> Inl IndexError
           | p # _ \<Rightarrow> Inr (ci\<lparr>args := fst p # args ci, constructor := True\<rparr>)))
   \<and> param_dict (ArgumentMapping_init definition_info (ci\<lparr>constructor := b\<rparr>))
       = param_dict (ArgumentMapping_init definition_info ci)
   \<and> ArgumentMapping.args_arg (ArgumentMapping_init definition_info (ci\<lparr>constructor := b\<rparr>))
       = ArgumentMapping.args_arg (ArgumentMapping_init definition_info ci)
   \<and> keyword_args (ArgumentMapping_init definition_info (ci\<lparr>constructor := b\<rparr>))
       = keyword_args (ArgumentMapping_init definition_info ci)
   \<and> (CallInfo_read ast_parse is_method_call True is_classmethod definition_info c = Inr cr
        \<and> args_with_defaults definition_info = (n, d) # ps
        \<and> n \<notin> fst ` set ps \<and> n \<notin> fst ` set (keywords_list cr)
      \<longrightarrow> param_dict (ArgumentMapping_init definition_info cr) n = Some n)
   \<and> CallInfo_read
       (\<lambda>_. Inr [Expr (Call [\<lparr>lineno = 1, col_offset = 2, end_lineno = 1, end_col_offset = 3\<rparr>]
                       [\<lparr>kw_arg = Some ''self'',
                         kw_value = \<lparr>lineno = 1, col_offset = 10, end_lineno = 1,
                                     end_col_offset = 11\<rparr>\<rparr>])])
       False True False (plain_definition ''__init__'' [''self'', ''x''] None) ''C(1, self=9)''
     = Inr \<lparr>CallInfo.function_name = ''C'', args = [''self'', ''1''],
            keywords_list = [(''self'', ''9'')], CallInfo.args_arg = None,
            CallInfo.keywords_arg = None, implicit_arg = False, constructor = True\<rparr>
   \<and> param_dict
       (ArgumentMapping_init (plain_definition ''__init__'' [''self'', ''x''] None)
          \<lparr>CallInfo.function_name = ''C'', args = [''self'', ''1''],
           keywords_list = [(''self'', ''9'')], CallInfo.args_arg = None,
           CallInfo.keywords_arg = None, implicit_arg = False, constructor = True\<rparr>) ''self''
     = Some ''9''"
proof -
  have 4: "CallInfo_read
       (\<lambda>_. Inr [Expr (Call [\<lparr>lineno = 1, col_offset = 2, end_lineno = 1, end_col_offset = 3\<rparr>]
                       [\<lparr>kw_arg = Some ''self'',
                         kw_value = \<lparr>lineno = 1, col_offset = 10, end_lineno = 1,
                                     end_col_offset = 11\<rparr>\<rparr>])])
       False True False (plain_definition ''__init__'' [''self'', ''x''] None) ''C(1, self=9)''
     = Inr \<lparr>CallInfo.function_name = ''C'', args = [''self'', ''1''],
            keywords_list = [(''self'', ''9'')], CallInfo.args_arg = None,
            CallInfo.keywords_arg = None, implicit_arg = False, constructor = True\<rparr>"
    by code_simp
  have 5: "param_dict
       (ArgumentMapping_init (plain_definition ''__init__'' [''self'', ''x''] None)
          \<lparr>CallInfo.function_name = ''C'', args = [''self'', ''1''],
           keywords_list = [(''self'', ''9'')], CallInfo.args_arg = None,
           CallInfo.keywords_arg = None, implicit_arg = False, constructor = True\<rparr>) ''self''
     = Some ''9''"
    by (simp add: ArgumentMapping_init_def plain_definition_def)
  have 1: "CallInfo_read ast_parse is_method_call True is_classmethod definition_info c =
     (case CallInfo_read ast_parse is_method_call False is_classmethod definition_info c of
        Inl e \<Rightarrow> Inl e
      | Inr ci \<Rightarrow>
          (case args_with_defaults definition_info of
             [] \<Rightarrow> Inl IndexError
           | p # _ \<Rightarrow> Inr (ci\<lparr>args := fst p # args ci, constructor := True\<rparr>)))"
    by (auto simp: CallInfo_read_def split: sum.splits prod.splits list.splits)
  have 2: "param_dict (ArgumentMapping_init definition_info (ci\<lparr>constructor := b\<rparr>))
       = param_dict (ArgumentMapping_init definition_info ci)"
    "ArgumentMapping.args_arg (ArgumentMapping_init definition_info (ci\<lparr>constructor := b\<rparr>))
       = ArgumentMapping.args_arg (ArgumentMapping_init definition_info ci)"
    "keyword_args (ArgumentMapping_init definition_info (ci\<lparr>constructor := b\<rparr>))
       = keyword_args (ArgumentMapping_init definition_info ci)"
    by (simp_all add: ArgumentMapping_init_eq)
  have 3: "param_dict (ArgumentMapping_init definition_info cr) n = Some n"
    if r: "CallInfo_read ast_parse is_method_call True is_classmethod definition_info c = Inr cr"
      and p: "args_with_defaults definition_info = (n, d) # ps"
      and o: "n \<notin> fst ` set ps" and k: "n \<notin> fst ` set (keywords_list cr)"
  proof -
    from constructor_read_args [OF r p] obtain as where "args cr = n # as"
      by auto
    then show ?thesis
      using p o k by (rule first_parameter_bound)
  qed
  have imp: "CallInfo_read ast_parse is_method_call True is_classmethod definition_info c = Inr cr
        \<and> args_with_defaults definition_info = (n, d) # ps
        \<and> n \<notin> fst ` set ps \<and> n \<notin> fst ` set (keywords_list cr)
      \<longrightarrow> param_dict (ArgumentMapping_init definition_info cr) n = Some n"
    using 3 by blast
  show ?thesis
    by (rule conjI [OF 1 conjI [OF 2(1) conjI [OF 2(2) conjI [OF 2(3) conjI [OF imp conjI [OF 4 5]]]]]])
qed

theorem constructor_argument_inserted_witness:
  "param_dict
     (ArgumentMapping_init (plain_definition ''__init__'' [''self'', ''x''] None)
        \<lparr>CallInfo.function_name = ''C'', args = [''self'', ''1''],
         keywords_list = [], CallInfo.args_arg = None, CallInfo.keywords_arg = None,
         implicit_arg = False, constructor = True\<rparr>) ''self'' = Some ''self''"
proof -
  have r: "CallInfo_read
     (\<lambda>_. Inr [Expr (Call [\<lparr>lineno = 1, col_offset = 2, end_lineno = 1, end_col_offset = 3\<rparr>] [])])
     False True False (plain_definition ''__init__'' [''self'', ''x''] None) ''C(1)''
   = Inr \<lparr>CallInfo.function_name = ''C'', args = [''self'', ''1''],
          keywords_list = [], CallInfo.args_arg = None, CallInfo.keywords_arg = None,
          implicit_arg = False, constructor = True\<rparr>"
    by code_simp
  have p: "args_with_defaults (plain_definition ''__init__'' [''self'', ''x''] None :: string DefinitionInfo)
             = (''self'', None) # [(''x'', None)]"
    by (simp add: plain_definition_def)
  show ?thesis
    using constructor_argument_inserted
      [where ast_parse = "\<lambda>_. Inr [Expr (Call [\<lparr>lineno = 1, col_offset = 2, end_lineno = 1, end_col_offset = 3\<rparr>] [])]"
         and is_method_call = False and is_classmethod = False
         and definition_info = "plain_definition ''__init__'' [''self'', ''x''] None"
         and c = "''C(1)''" and n = "''self''" and d = None and ps = "[(''x'', None)]"
         and cr = "\<lparr>CallInfo.function_name = ''C'', args = [''self'', ''1''],
          keywords_list = [], CallInfo.args_arg = None, CallInfo.keywords_arg = None,
          implicit_arg = False, constructor = True\<rparr>"]
      r p
    by simp
qed

text \<open>
  The constructor call \<open>C(1)\<close>, read against \<open>__init__(self, x)\<close>: the call parser
  returns the positional arguments \<open>self\<close> and \<open>1\<close>.
\<close>

theorem constructor_argument_counterexample:
  "CallInfo_read
     (\<lambda>_. Inr [Expr (Call [\<lparr>lineno = 1, col_offset = 2, end_lineno = 1, end_col_offset = 3\<rparr>] [])])
     False True False (plain_definition ''__init__'' [''self'', ''x''] None) ''C(1)''
   = Inr \<lparr>CallInfo.function_name = ''C'', args = [''self'', ''1''],
          keywords_list = [], CallInfo.args_arg = None, CallInfo.keywords_arg = None,
          implicit_arg = False, constructor = True\<rparr>"
  by code_simp

text \<open>
  C6 (the code at a failing input). The tree of \<open>f(x, **d)\<close> has one positional
  argument and one \<open>ast.keyword\<close> whose \<open>arg\<close> is \<open>None\<close>, the spread.
  \<open>_FunctionCallParser.get_parameters\<close> stops at \<open>assert kw.arg\<close>, so \<open>CallInfo.read\<close>
  raises \<open>AssertionError\<close> and captures no keyword spread; the sibling call \<open>f(x, *d)\<close>
  is read, with \<open>d\<close> as its positional spread.
\<close>

theorem keyword_spread_assertion:
  "CallInfo_read
     (\<lambda>_. Inr [Expr (Call [\<lparr>lineno = 1, col_offset = 2, end_lineno = 1, end_col_offset = 3\<rparr>]
                     [\<lparr>kw_arg = None,
                       kw_value = \<lparr>lineno = 1, col_offset = 7, end_lineno = 1,
                                   end_col_offset = 8\<rparr>\<rparr>])])
     False False False (plain_definition ''f'' [''a''] None) ''f(x, **d)''
   = Inl AssertionError
   \<and> CallInfo_read
     (\<lambda>_. Inr [Expr (Call [\<lparr>lineno = 1, col_offset = 2, end_lineno = 1, end_col_offset = 3\<rparr>,
                      \<lparr>lineno = 1, col_offset = 5, end_lineno = 1, end_col_offset = 7\<rparr>] [])])
     False False False (plain_definition ''f'' [''a''] None) ''f(x, *d)''
   = Inr \<lparr>CallInfo.function_name = ''f'', args = [''x''], keywords_list = [],
          CallInfo.args_arg = Some ''d'', CallInfo.keywords_arg = None,
          implicit_arg = False, constructor = False\<rparr>"
  by code_simp

text \<open>
  C7 (the code at a failing input). For \<open>f(a, b=1, *rest)\<close> the tree has the
  parameters \<open>a\<close> and \<open>b\<close>, the variadic parameter \<open>rest\<close> and one default, the text
  \<open>1\<close> at columns 11 to 12 of \<open>def f(a, b=1, *rest): pass\<close>. \<open>DefinitionInfo._read\<close>
  pairs the default with the entry \<open>*rest\<close>, leaves \<open>b\<close> without default and finds no
  variadic parameter. Without the variadic parameter, for \<open>f(a, b=1)\<close>, the default is
  paired with \<open>b\<close>.
\<close>

theorem default_paired_with_vararg:
  "DefinitionInfo_read
     (\<lambda>_. Inr [FunctionDef \<lparr>posonlyargs = [], args = [''a'', ''b''], vararg = Some ''rest'',
                   kwonlyargs = [], kw_defaults = [], kwarg = None,
                   defaults = [\<lparr>lineno = 1, col_offset = 11, end_lineno = 1,
                                end_col_offset = 12\<rparr>]\<rparr>])
     ''function'' ''f(a, b=1, *rest)''
   = Inr \<lparr>DefinitionInfo.function_name = ''f'', is_method = False,
          args_with_defaults = [(Str ''a'', None), (Str ''b'', None), (Str ''*rest'', Some ''1'')],
          DefinitionInfo.args_arg = None, DefinitionInfo.keywords_arg = None\<rparr>
   \<and> DefinitionInfo_read
     (\<lambda>_. Inr [FunctionDef \<lparr>posonlyargs = [], args = [''a'', ''b''], vararg = None,
                   kwonlyargs = [], kw_defaults = [], kwarg = None,
                   defaults = [\<lparr>lineno = 1, col_offset = 11, end_lineno = 1,
                                end_col_offset = 12\<rparr>]\<rparr>])
     ''function'' ''f(a, b=1)''
   = Inr \<lparr>DefinitionInfo.function_name = ''f'', is_method = False,
          args_with_defaults = [(Str ''a'', None), (Str ''b'', Some ''1'')],
          DefinitionInfo.args_arg = None, DefinitionInfo.keywords_arg = None\<rparr>"
  by code_simp

text \<open>
  C8 (the code at a failing input). For \<open>f(a, *, k)\<close> the tree has the parameter \<open>a\<close>,
  the keyword-only parameter \<open>k\<close> and \<open>kw_defaults = [None]\<close>. \<open>get_parameters\<close> appends
  \<open>*\<close> and \<open>k\<close> and then deletes the last entry, so \<open>DefinitionInfo._read\<close> returns
  the parameter \<open>a\<close> alone, with the empty string as the name of the variadic
  parameter. For \<open>f(a, *, k, **kw)\<close> the entry \<open>**kw\<close> stays among the parameters, and
  for \<open>f(a=1, *, k)\<close> the reader raises \<open>AttributeError\<close>.
\<close>

theorem keyword_only_dropped:
  "DefinitionInfo_read
     (\<lambda>_. Inr [FunctionDef \<lparr>posonlyargs = [], args = [''a''], vararg = None,
                   kwonlyargs = [''k''], kw_defaults = [None], kwarg = None, defaults = []\<rparr>])
     ''function'' ''f(a, *, k)''
   = Inr \<lparr>DefinitionInfo.function_name = ''f'', is_method = False,
          args_with_defaults = [(Str ''a'', None)],
          DefinitionInfo.args_arg = Some [], DefinitionInfo.keywords_arg = None\<rparr>
   \<and> DefinitionInfo_read
     (\<lambda>_. Inr [FunctionDef \<lparr>posonlyargs = [], args = [''a''], vararg = None,
                   kwonlyargs = [''k''], kw_defaults = [None], kwarg = Some ''kw'',
                   defaults = []\<rparr>])
     ''function'' ''f(a, *, k, **kw)''
   = Inr \<lparr>DefinitionInfo.function_name = ''f'', is_method = False,
          args_with_defaults = [(Str ''a'', None), (Str ''**kw'', None)],
          DefinitionInfo.args_arg = Some [], DefinitionInfo.keywords_arg = None\<rparr>
   \<and> DefinitionInfo_read
     (\<lambda>_. Inr [FunctionDef \<lparr>posonlyargs = [], args = [''a''], vararg = None,
                   kwonlyargs = [''k''], kw_defaults = [None], kwarg = None,
                   defaults = [\<lparr>lineno = 1, col_offset = 8, end_lineno = 1,
                                end_col_offset = 9\<rparr>]\<rparr>])
     ''function'' ''f(a=1, *, k)''
   = Inl AttributeError"
  by code_simp

text \<open>
  C9. A call header \<open>r.m(...)\<close>, where \<open>r\<close> is a dotted name, \<open>m\<close> an identifier and
  the argument list holds no bracket and no quote, read as a method call: when the tree
  of the call has its arguments on the first line, none of them a spread, and every
  keyword has a name, the positional arguments are the text of \<open>r\<close> followed by the
  texts of the written arguments, \<open>implicit_arg\<close> is true and the callee name is \<open>m\<close>.
  For \<open>obj.method(1, 2)\<close> this is \<open>[obj, 1, 2]\<close> and \<open>method\<close>.
\<close>

theorem method_call_receiver:
  fixes ast_parse :: "string \<Rightarrow> py_error + stmt list"
  defines "text \<equiv> \<lambda>c a. slice c (col_offset a) (end_col_offset a)"
  assumes shape: "c = r @ ''.'' @ m @ ''('' @ inner @ '')''"
    and r: "r \<noteq> []" "\<forall>x\<in>set r. is_ident x \<or> x = CHR ''.''"
    and m: "\<forall>x\<in>set m. is_ident x"
    and inner: "\<forall>x\<in>set inner. \<not> is_quote x \<and> \<not> is_opener x \<and> \<not> is_closer x"
    and parse: "ast_parse c = Inr (Expr (Call as ks) # rest)"
    and as: "\<forall>a\<in>set as. lineno a = 1 \<and> end_lineno a = 1 \<and> \<not> startswith (text c a) ''*''"
    and ks: "\<forall>k\<in>set ks. lineno (kw_value k) = 1 \<and> end_lineno (kw_value k) = 1
                \<and> kw_arg k \<noteq> None \<and> kw_arg k \<noteq> Some []"
  shows "CallInfo_read ast_parse True False is_classmethod definition_info c =
           Inr \<lparr>CallInfo.function_name = m,
                args = r # map (text c) as,
                keywords_list = map (\<lambda>k. (the (kw_arg k), text c (kw_value k))) ks,
                CallInfo.args_arg = None, CallInfo.keywords_arg = None,
                implicit_arg = True, constructor = False\<rparr>"
proof -
  let ?pre = "r @ ''.'' @ m"
  have c: "c = ?pre @ ''('' @ inner @ '')''"
    by (simp add: shape)
  define fpv where "fpv = length ?pre"
  define lpv where "lpv = length ?pre + 1 + length inner"
  have "c = (?pre @ ''('' @ inner) @ [CHR '')'']"
    by (simp add: shape)
  then have lp: "rindex c (CHR '')'') = Some lpv"
    using rindex_snoc [of "?pre @ ''('' @ inner" "CHR '')''"] by (simp add: lpv_def)
  have fp: "find_parens_start c lpv = Inr fpv"
    unfolding c lpv_def fpv_def using inner by (rule find_parens_start_plain)
  have base: "BaseFunctionParser_init c False = Inr (lpv, fpv)"
    by (simp add: BaseFunctionParser_init_def lp fp)
  define info :: "(node list \<times> keyword list) function_parser" where
    "info = \<lparr>call = c, function_parser.implicit_arg = True,
             last_parens = lpv, first_parens = fpv,
             lines = SourceLinesAdapter c, ast = (as, ks)\<rparr>"
  have init: "FunctionCallParser_init ast_parse c True = Inr info"
    by (simp add: FunctionCallParser_init_def base parse info_def)
  have pre: "take (first_parens info) (call info) = ?pre"
    by (simp add: info_def shape fpv_def)
  have meth: "is_called_as_a_method info"
    by (simp add: is_called_as_a_method_def pre) (simp add: info_def)
  have m_nodot: "CHR ''.'' \<notin> set m"
    using m is_ident_not_dot by blast
  have dot: "rindex (take (first_parens info) (call info)) (CHR ''.'') = Some (length r)"
    using rindex_append_notin [OF m_nodot, of r] by (simp add: pre)
  have r_space: "\<not> is_space x" if "x \<in> set r" for x
    using r(2) that is_ident_not_space dot_not_space by blast
  have "strip r = r"
    using r(1) r_space by (intro strip_no_space) simp_all
  then have inst: "strip (take (length r) (call info)) = r"
    by (simp add: info_def shape)
  have lines: "lines info = SourceLinesAdapter c"
    by (simp add: info_def)
  have a1: "arg_ranges info (fst (ast info)) = Inr (map (text c) as)"
    using arg_ranges_first_line [OF lines, of as] as by (simp add: info_def text_def)
  have k1: "keyword_ranges info (snd (ast info)) =
              Inr (map (\<lambda>k. (the (kw_arg k), text c (kw_value k))) ks)"
    using keyword_ranges_first_line [OF lines, of ks] ks by (simp add: info_def text_def)
  have params: "FunctionCallParser_get_parameters info =
                  Inr (r # map (text c) as, map (\<lambda>k. (the (kw_arg k), text c (kw_value k))) ks)"
    by (simp add: FunctionCallParser_get_parameters_def a1 k1 meth dot inst)
  have "hd r \<noteq> CHR ''*''"
    using r is_ident_not_star [of "hd r"] by (cases r) auto
  then have r_star: "\<not> startswith r ''*''"
    using r(1) by (cases r) (auto simp: startswith_def)
  have spreads: "strip_spreads (r # map (text c) as) = (r # map (text c) as, None, None)"
    using r_star as by (intro strip_spreads_plain) auto
  have "nat (int (first_parens info) - 1 + 1) = first_parens info"
    by simp
  then have "get_word_at (call info) (int (first_parens info) - 1) =
               rev (takeWhile is_ident (rev (take (first_parens info) (call info))))"
    by (simp only: get_word_at_def)
  also have "\<dots> = m"
    using word_before_dot [OF m, of r] by (simp add: pre)
  finally have name: "get_function_name info = m"
    using meth by (simp add: get_function_name_def)
  show ?thesis
    by (simp add: CallInfo_read_def init params spreads name)
qed

theorem method_call_receiver_witness:
  "CallInfo_read
     (\<lambda>_. Inr [Expr (Call [\<lparr>lineno = 1, col_offset = 11, end_lineno = 1, end_col_offset = 12\<rparr>,
                             \<lparr>lineno = 1, col_offset = 14, end_lineno = 1, end_col_offset = 15\<rparr>] [])])
     True False False (plain_definition ''method'' [''self'', ''a'', ''b''] None) ''obj.method(1, 2)''
   = Inr \<lparr>CallInfo.function_name = ''method'', args = [''obj'', ''1'', ''2''],
          keywords_list = [], CallInfo.args_arg = None, CallInfo.keywords_arg = None,
          implicit_arg = True, constructor = False\<rparr>"
  using method_call_receiver
    [where c = "''obj.method(1, 2)''" and r = "''obj''" and m = "''method''" and inner = "''1, 2''"
       and ast_parse = "\<lambda>_. Inr [Expr (Call [\<lparr>lineno = 1, col_offset = 11, end_lineno = 1, end_col_offset = 12\<rparr>,
                             \<lparr>lineno = 1, col_offset = 14, end_lineno = 1, end_col_offset = 15\<rparr>] [])]"
       and as = "[\<lparr>lineno = 1, col_offset = 11, end_lineno = 1, end_col_offset = 12\<rparr>,
                             \<lparr>lineno = 1, col_offset = 14, end_lineno = 1, end_col_offset = 15\<rparr>]"
       and ks = "[]" and rest = "[]" and is_classmethod = False
       and definition_info = "plain_definition ''method'' [''self'', ''a'', ''b''] None"]
  by (simp add: is_ident_def is_quote_def is_opener_def is_closer_def startswith_def slice_def)

text \<open>
  C10. A fragment without any closing parenthesis, such as \<open>f(1, 2\<close>, makes both readers
  raise \<open>ValueError\<close> (from \<open>str.rindex\<close>), whatever the flags, the definition and the
  Python parser are; and whenever \<open>ast.parse\<close> rejects the text it is given, the reader
  raises an error. In both cases no \<open>CallInfo\<close> and no \<open>DefinitionInfo\<close> is returned.
\<close>

theorem unterminated_call_fails:
  "(CHR '')'' \<notin> set c \<longrightarrow>
      CallInfo_read ast_parse is_method_call is_constructor is_classmethod definition_info c
        = Inl ValueError
      \<and> DefinitionInfo_read ast_parse kind c = Inl ValueError)
   \<and> (ast_parse c = Inl e \<longrightarrow>
        (\<exists>e'. CallInfo_read ast_parse is_method_call is_constructor is_classmethod
                definition_info c = Inl e'))
   \<and> (ast_parse (''def '' @ rstrip_colon c @ '': pass'') = Inl e \<longrightarrow>
        (\<exists>e'. DefinitionInfo_read ast_parse kind c = Inl e'))"
proof -
  have none: "BaseFunctionParser_init c False = Inl ValueError" if "CHR '')'' \<notin> set c"
    using that by (simp add: BaseFunctionParser_init_def rindex_None_iff [THEN iffD2])
  have 1: "CallInfo_read ast_parse is_method_call is_constructor is_classmethod definition_info c
             = Inl ValueError" if "CHR '')'' \<notin> set c"
    by (simp add: CallInfo_read_def FunctionCallParser_init_def none [OF that])
  have 2: "DefinitionInfo_read ast_parse kind c = Inl ValueError" if "CHR '')'' \<notin> set c"
    by (simp add: DefinitionInfo_read_def FunctionDefParser_init_def Let_def none [OF that])
  have 3: "\<exists>e'. CallInfo_read ast_parse is_method_call is_constructor is_classmethod
                definition_info c = Inl e'" if "ast_parse c = Inl e"
    using that by (simp add: CallInfo_read_def FunctionCallParser_init_def split: sum.splits prod.splits)
  have 4: "\<exists>e'. DefinitionInfo_read ast_parse kind c = Inl e'"
    if "ast_parse (''def '' @ rstrip_colon c @ '': pass'') = Inl e"
    using that by (simp add: DefinitionInfo_read_def FunctionDefParser_init_def Let_def split: sum.splits prod.splits)
  show ?thesis
    using 1 2 3 4 by blast
qed

theorem unterminated_call_fails_witness:
  "CallInfo_read (\<lambda>_. Inl SyntaxError) False False False (plain_definition ''f'' [''a'', ''b''] None)
     ''f(1, 2'' = Inl ValueError
   \<and> DefinitionInfo_read (\<lambda>_. Inl SyntaxError) ''function'' ''f(1, 2'' = Inl ValueError"
  using unterminated_call_fails
    [where c = "''f(1, 2''" and ast_parse = "\<lambda>_. Inl SyntaxError" and e = SyntaxError
       and is_method_call = False and is_constructor = False and is_classmethod = False
       and definition_info = "plain_definition ''f'' [''a'', ''b''] None" and kind = "''function''"]
  by simp

end
